theory Spec2Isabelle
  imports Main "HOL-Library.Sublist"
begin

section \<open>Text\<close>

text \<open>
  A Python \<open>str\<close> is modelled as a \<^typ>\<open>string\<close>, one \<^typ>\<open>char\<close> per code point, so
  the texts of the model are those whose code points lie below 256. The character classes
  of the regular expressions and \<open>str.lower\<close> are written out for that range. The patterns
  of the grammar are compiled by \<open>parsimonious\<close>, which uses the \<open>regex\<close> package; the
  patterns of \<open>to_snake_case\<close> are compiled by Python's \<open>re\<close>. Below 256 the two agree on
  every class that the program uses but \<open>\w\<close>, which only the grammar uses.
\<close>

definition code :: "char \<Rightarrow> nat" where
  "code c = of_char c"

definition is_lower :: "char \<Rightarrow> bool" where
  \<comment> \<open>the class \<open>[a-z]\<close>\<close>
  "is_lower c = (97 \<le> code c \<and> code c \<le> 122)"

definition is_upper :: "char \<Rightarrow> bool" where
  \<comment> \<open>the class \<open>[A-Z]\<close>\<close>
  "is_upper c = (65 \<le> code c \<and> code c \<le> 90)"

definition is_digit09 :: "char \<Rightarrow> bool" where
  \<comment> \<open>the class \<open>[0-9]\<close>; below 256 also the class \<open>\d\<close> (Unicode decimal digits)\<close>
  "is_digit09 c = (48 \<le> code c \<and> code c \<le> 57)"

definition is_word :: "char \<Rightarrow> bool" where
  \<comment> \<open>the class \<open>\w\<close> of the \<open>regex\<close> package on a \<open>str\<close>: letters, decimal digits and the
      underscore; the superscript digits 178, 179 and 185 and the fractions 188, 189 and
      190, which \<open>re\<close> counts as word characters, are not in the class\<close>
  "is_word c = (is_lower c \<or> is_upper c \<or> is_digit09 c \<or> code c = 95
     \<or> code c \<in> {170, 181, 186}
     \<or> (192 \<le> code c \<and> code c \<noteq> 215 \<and> code c \<noteq> 247))"

definition lower_char :: "char \<Rightarrow> char" where
  "lower_char c = (if is_upper c \<or> (192 \<le> code c \<and> code c \<le> 222 \<and> code c \<noteq> 215)
                   then char_of (code c + 32) else c)"

definition lower :: "string \<Rightarrow> string" where
  \<comment> \<open>\<open>str.lower()\<close>\<close>
  "lower s = map lower_char s"

definition replace :: "char \<Rightarrow> char \<Rightarrow> string \<Rightarrow> string" where
  \<comment> \<open>\<open>s.replace(a, b)\<close> for one-character \<open>a\<close> and \<open>b\<close>\<close>
  "replace a b s = map (\<lambda>c. if c = a then b else c) s"

fun split :: "char \<Rightarrow> string \<Rightarrow> string list" where
  \<comment> \<open>\<open>s.split(sep)\<close> for a one-character separator: never the empty list\<close>
  "split sep [] = [[]]"
| "split sep (c # cs) =
     (if c = sep then [] # split sep cs
      else (case split sep cs of p # ps \<Rightarrow> (c # p) # ps | [] \<Rightarrow> [[c]]))"

fun join :: "string \<Rightarrow> string list \<Rightarrow> string" where
  \<comment> \<open>\<open>sep.join(parts)\<close>\<close>
  "join sep [] = []"
| "join sep [p] = p"
| "join sep (p # q # ps) = p @ sep @ join sep (q # ps)"

definition startswith :: "string \<Rightarrow> string \<Rightarrow> bool" where
  "startswith s p = (take (length p) s = p)"

definition strip :: "string \<Rightarrow> string" where
  \<comment> \<open>a line without its indentation and its trailing blanks\<close>
  "strip s = rev (dropWhile (\<lambda>c. c = CHR '' '') (rev (dropWhile (\<lambda>c. c = CHR '' '') s)))"

definition digit_char :: "nat \<Rightarrow> char" where
  "digit_char d = char_of (48 + d)"

fun str_nat :: "nat \<Rightarrow> string" where
  "str_nat n = (if n < 10 then [digit_char n] else str_nat (n div 10) @ [digit_char (n mod 10)])"

declare str_nat.simps [simp del]

definition str_int :: "int \<Rightarrow> string" where
  \<comment> \<open>\<open>str(n)\<close>, as an f-string formats an \<open>int\<close>\<close>
  "str_int n = (if n < 0 then CHR ''-'' # str_nat (nat (- n)) else str_nat (nat n))"

section \<open>TypeMap\<close>

subsection \<open>Forward table (msg2proto.map\_type)\<close>

text \<open>
  The dictionary literal of \<open>map_type\<close>, in source order. A later entry of a Python
  dictionary literal replaces an earlier one with the same key, so the table is read from
  its end.
\<close>

definition msg2proto_map :: "(string \<times> string) list" where
  "msg2proto_map =
    [(''float64'', ''double''),
     (''float32'', ''float''),
     (''int64'', ''int64''),
     (''uint64'', ''uint64''),
     (''int32'', ''int32''),
     (''uint32'', ''uint32''),
     (''int16'', ''int32''),
     (''uint16'', ''uint32''),
     (''int8'', ''int32''),
     (''uint8'', ''uint32''),
     (''byte'', ''uint32''),
     (''bool'', ''bool''),
     (''char'', ''string''),
     (''string'', ''string''),
     (''wstring'', ''string''),
     (''Header'', ''std_msgs.Header''),
     (''builtin_interfaces/Time'', ''google.protobuf.Timestamp''),
     (''builtin_interfaces/Duration'', ''google.protobuf.Duration''),
     (''std_msgs/Float64'', ''google.protobuf.DoubleValue''),
     (''std_msgs/Float32'', ''google.protobuf.FloatValue''),
     (''std_msgs/Int64'', ''google.protobuf.Int64Value''),
     (''std_msgs/UInt64'', ''google.protobuf.UInt64Value''),
     (''std_msgs/Int32'', ''google.protobuf.Int32Value''),
     (''std_msgs/UInt32'', ''google.protobuf.UInt32Value''),
     (''std_msgs/Bool'', ''google.protobuf.BoolValue''),
     (''std_msgs/String'', ''google.protobuf.StringValue''),
     (''std_msgs/String'', ''google.protobuf.BytesValue'')]"

definition msg2proto_map_type :: "string \<Rightarrow> string" where
  \<comment> \<open>\<open>map.get(field_type, field_type.replace('/', '.'))\<close>\<close>
  "msg2proto_map_type field_type =
     (case map_of (rev msg2proto_map) field_type of
        Some t \<Rightarrow> t
      | None \<Rightarrow> replace CHR ''/'' CHR ''.'' field_type)"

subsection \<open>Reverse table (protoc\_gen\_msg.map\_type)\<close>

text \<open>
  The members of \<open>FieldDescriptorProto.Type\<close> and \<open>FieldDescriptorProto.Label\<close> are
  integers fixed by the descriptor schema of the protobuf library
  (\<open>google/protobuf/descriptor.proto\<close>).
\<close>

abbreviation (input) TYPE_DOUBLE :: int where "TYPE_DOUBLE \<equiv> 1"
abbreviation (input) TYPE_FLOAT :: int where "TYPE_FLOAT \<equiv> 2"
abbreviation (input) TYPE_INT64 :: int where "TYPE_INT64 \<equiv> 3"
abbreviation (input) TYPE_UINT64 :: int where "TYPE_UINT64 \<equiv> 4"
abbreviation (input) TYPE_INT32 :: int where "TYPE_INT32 \<equiv> 5"
abbreviation (input) TYPE_FIXED64 :: int where "TYPE_FIXED64 \<equiv> 6"
abbreviation (input) TYPE_FIXED32 :: int where "TYPE_FIXED32 \<equiv> 7"
abbreviation (input) TYPE_BOOL :: int where "TYPE_BOOL \<equiv> 8"
abbreviation (input) TYPE_STRING :: int where "TYPE_STRING \<equiv> 9"
abbreviation (input) TYPE_GROUP :: int where "TYPE_GROUP \<equiv> 10"
abbreviation (input) TYPE_MESSAGE :: int where "TYPE_MESSAGE \<equiv> 11"
abbreviation (input) TYPE_BYTES :: int where "TYPE_BYTES \<equiv> 12"
abbreviation (input) TYPE_UINT32 :: int where "TYPE_UINT32 \<equiv> 13"
abbreviation (input) TYPE_ENUM :: int where "TYPE_ENUM \<equiv> 14"
abbreviation (input) TYPE_SFIXED32 :: int where "TYPE_SFIXED32 \<equiv> 15"
abbreviation (input) TYPE_SFIXED64 :: int where "TYPE_SFIXED64 \<equiv> 16"
abbreviation (input) TYPE_SINT32 :: int where "TYPE_SINT32 \<equiv> 17"
abbreviation (input) TYPE_SINT64 :: int where "TYPE_SINT64 \<equiv> 18"

abbreviation (input) LABEL_OPTIONAL :: int where "LABEL_OPTIONAL \<equiv> 1"
abbreviation (input) LABEL_REQUIRED :: int where "LABEL_REQUIRED \<equiv> 2"
abbreviation (input) LABEL_REPEATED :: int where "LABEL_REPEATED \<equiv> 3"

definition protoc_gen_msg_map :: "(int \<times> string) list" where
  "protoc_gen_msg_map =
    [(TYPE_DOUBLE, ''float64''),
     (TYPE_FLOAT, ''float32''),
     (TYPE_INT64, ''int64''),
     (TYPE_UINT64, ''uint64''),
     (TYPE_INT32, ''int32''),
     (TYPE_FIXED64, ''uint64''),
     (TYPE_FIXED32, ''uint32''),
     (TYPE_BOOL, ''bool''),
     (TYPE_STRING, ''string''),
     (TYPE_GROUP, ''TYPE_GROUP''),
     (TYPE_MESSAGE, ''TYPE_MESSAGE''),
     (TYPE_BYTES, ''string''),
     (TYPE_UINT32, ''uint32''),
     (TYPE_ENUM, ''TYPE_ENUM''),
     (TYPE_SFIXED32, ''int32''),
     (TYPE_SFIXED64, ''int64''),
     (TYPE_SINT32, ''int32''),
     (TYPE_SINT64, ''int64'')]"

definition protoc_gen_msg_map_type :: "int \<Rightarrow> string" where
  \<comment> \<open>\<open>map.get(field_type, "string")\<close>\<close>
  "protoc_gen_msg_map_type field_type =
     (case map_of (rev protoc_gen_msg_map) field_type of Some t \<Rightarrow> t | None \<Rightarrow> ''string'')"

text \<open>
  Between the two tables stands the schema compiler, which is not part of the repository:
  it reads the scalar keyword of a field of a schema file and stores the member of
  \<open>FieldDescriptorProto.Type\<close> of that keyword in the field's descriptor. The keywords and
  their members are those of the protobuf language.
\<close>

definition scalar_keyword_type :: "(string \<times> int) list" where
  "scalar_keyword_type =
    [(''double'', TYPE_DOUBLE),
     (''float'', TYPE_FLOAT),
     (''int64'', TYPE_INT64),
     (''uint64'', TYPE_UINT64),
     (''int32'', TYPE_INT32),
     (''fixed64'', TYPE_FIXED64),
     (''fixed32'', TYPE_FIXED32),
     (''bool'', TYPE_BOOL),
     (''string'', TYPE_STRING),
     (''bytes'', TYPE_BYTES),
     (''uint32'', TYPE_UINT32),
     (''sfixed32'', TYPE_SFIXED32),
     (''sfixed64'', TYPE_SFIXED64),
     (''sint32'', TYPE_SINT32),
     (''sint64'', TYPE_SINT64)]"

definition toTargetPrimitive :: "string \<Rightarrow> string" where
  "toTargetPrimitive t = msg2proto_map_type t"

definition toSourcePrimitive :: "string \<Rightarrow> string option" where
  \<comment> \<open>the reverse table, read at the descriptor type of a scalar keyword\<close>
  "toSourcePrimitive k = map_option protoc_gen_msg_map_type (map_of scalar_keyword_type k)"

section \<open>Forward path (msg2proto)\<close>

subsection \<open>The parsed document\<close>

text \<open>
  \<open>MsgVisitor\<close> builds one dictionary per line: \<open>{"emptyline": ""}\<close>,
  \<open>{"comment": text}\<close>, \<open>{"field": params}\<close> or \<open>{"constant": params}\<close>. The dictionary
  under \<open>"type"\<close> has the keys \<open>package\<close> and \<open>typename\<close>, \<open>is_array\<close>, and two keys that
  may be absent: \<open>is_complextype\<close> (set to \<open>True\<close> by \<open>visit_complextype\<close> only, and read with
  \<open>get\<close>, so absent and \<open>False\<close> agree) and \<open>arraybound\<close> (set by \<open>visit_arrayspec\<close> only).
\<close>

record msg_type =
  type_package :: string
  type_typename :: string
  type_is_complextype :: bool
  type_is_array :: bool
  type_arraybound :: "string option"

record params =
  params_type :: msg_type
  params_name :: string
  params_value :: string
  params_comment :: string

datatype line = EmptyLine | CommentLine string | FieldLine params | ConstantLine params

fun is_field :: "line \<Rightarrow> bool" where
  "is_field (FieldLine p) = True"
| "is_field l = False"

subsection \<open>The grammar, with the visitor\<close>

text \<open>
  Every rule of the grammar is a function from the text at the current position to the
  value that \<open>MsgVisitor\<close> returns for the rule's node and the text after the match, or
  \<open>None\<close> where the rule does not match. A parsing expression grammar never returns into
  a rule that has matched; a regular expression is one rule, matched by the \<open>regex\<close>
  package.

  \<open>asscalar\<close> passes a string through a numpy array and back, which drops the NUL
  characters at its end.
\<close>

definition asscalar :: "string \<Rightarrow> string" where
  "asscalar s = rev (dropWhile (\<lambda>c. c = CHR 0x00) (rev s))"

definition oneof :: "'a option \<Rightarrow> 'a option \<Rightarrow> 'a option" where
  \<comment> \<open>ordered choice: the second alternative only where the first fails\<close>
  "oneof a b = (case a of None \<Rightarrow> b | Some x \<Rightarrow> Some x)"

definition lit :: "string \<Rightarrow> string \<Rightarrow> string option" where
  \<comment> \<open>a literal of the grammar\<close>
  "lit l s = (if startswith s l then Some (drop (length l) s) else None)"

definition re_star :: "(char \<Rightarrow> bool) \<Rightarrow> string \<Rightarrow> string \<times> string" where
  \<comment> \<open>\<open>[class]*\<close>\<close>
  "re_star p s = (takeWhile p s, dropWhile p s)"

definition re_plus :: "(char \<Rightarrow> bool) \<Rightarrow> string \<Rightarrow> (string \<times> string) option" where
  \<comment> \<open>\<open>[class]+\<close>\<close>
  "re_plus p s = (if takeWhile p s = [] then None else Some (takeWhile p s, dropWhile p s))"

definition re_first_rest ::
  "(char \<Rightarrow> bool) \<Rightarrow> (char \<Rightarrow> bool) \<Rightarrow> string \<Rightarrow> (string \<times> string) option" where
  \<comment> \<open>\<open>[first][rest]*\<close>\<close>
  "re_first_rest p q s =
     (case s of [] \<Rightarrow> None
      | c # r \<Rightarrow> if p c then Some (c # takeWhile q r, dropWhile q r) else None)"

definition SP_rule :: "string \<Rightarrow> string" where
  \<comment> \<open>\<open>SP = ~r"[ \t]*"\<close>: always matches; the text after the blanks\<close>
  "SP_rule s = dropWhile (\<lambda>c. c = CHR '' '' \<or> c = CHR 0x09) s"

definition EOL_rule :: "string \<Rightarrow> string option" where
  \<comment> \<open>\<open>EOL = ~r"[\n\r]"\<close>\<close>
  "EOL_rule s =
     (case s of [] \<Rightarrow> None
      | c # r \<Rightarrow> if c = CHR 0x0A \<or> c = CHR 0x0D then Some r else None)"

definition text_rule :: "string \<Rightarrow> string \<times> string" where
  \<comment> \<open>\<open>text = ~r".*"\<close>: the period matches every character but the newline\<close>
  "text_rule s = re_star (\<lambda>c. c \<noteq> CHR 0x0A) s"

definition comment_rule :: "string \<Rightarrow> (string \<times> string) option" where
  \<comment> \<open>\<open>comment = "#"+ SP text\<close>; \<open>visit_comment\<close>: the text\<close>
  "comment_rule s =
     (case re_plus (\<lambda>c. c = CHR ''#'') s of
        None \<Rightarrow> None
      | Some (hashes, r) \<Rightarrow>
          (case text_rule (SP_rule r) of (t, r') \<Rightarrow> Some (asscalar t, r')))"

definition optional_comment :: "string \<Rightarrow> string \<times> string" where
  \<comment> \<open>\<open>comment?\<close> with \<open>asscalar(...) or {"comment": ""}\<close>\<close>
  "optional_comment s = (case comment_rule s of Some (c, r) \<Rightarrow> (c, r) | None \<Rightarrow> ([], s))"

definition numericval_rule :: "string \<Rightarrow> (string \<times> string) option" where
  \<comment> \<open>\<open>numericval = ~r"[-+\.bBoOxX\d]+"\<close>\<close>
  "numericval_rule s = re_plus (\<lambda>c. c \<in> set ''-+.bBoOxX'' \<or> is_digit09 c) s"

definition boolval_rule :: "string \<Rightarrow> (string \<times> string) option" where
  \<comment> \<open>\<open>boolval = ~r"[Tt]rue" / ~r"[Ff]alse"\<close>\<close>
  "boolval_rule s =
     (if startswith s ''True'' \<or> startswith s ''true'' then Some (take 4 s, drop 4 s)
      else if startswith s ''False'' \<or> startswith s ''false'' then Some (take 5 s, drop 5 s)
      else None)"

definition quoted :: "char \<Rightarrow> string \<Rightarrow> (string \<times> string) option" where
  \<comment> \<open>\<open>~r"[a-z]?q[^q]*q"\<close> for a quote character \<open>q\<close>: a negated class matches the newline
      too, so the match may run over several lines\<close>
  "quoted q s =
     (let prefix = (case s of c # r \<Rightarrow> if is_lower c then [c] else [] | [] \<Rightarrow> []);
          s1 = drop (length prefix) s
      in case s1 of
           [] \<Rightarrow> None
         | c # r \<Rightarrow>
             if c = q then
               (case dropWhile (\<lambda>c. c \<noteq> q) r of
                  [] \<Rightarrow> None
                | c' # r' \<Rightarrow> Some (prefix @ [q] @ takeWhile (\<lambda>c. c \<noteq> q) r @ [q], r'))
             else None)"

definition stringval_rule :: "string \<Rightarrow> (string \<times> string) option" where
  \<comment> \<open>\<open>stringval = ~r"[a-z]?\"[^\"]*\"" / ~r"[a-z]?\'[^\']*\'"\<close>\<close>
  "stringval_rule s = oneof (quoted (CHR 0x22) s) (quoted (CHR 0x27) s)"

definition arrayval_rule :: "string \<Rightarrow> (string \<times> string) option" where
  \<comment> \<open>\<open>arrayval = ~r"\[[^\]]*\]"\<close>\<close>
  "arrayval_rule s =
     (case s of
        [] \<Rightarrow> None
      | c # r \<Rightarrow>
          if c = CHR ''['' then
            (case dropWhile (\<lambda>c. c \<noteq> CHR '']'') r of
               [] \<Rightarrow> None
             | c' # r' \<Rightarrow> Some (''['' @ takeWhile (\<lambda>c. c \<noteq> CHR '']'') r @ '']'', r'))
          else None)"

definition value_rule :: "string \<Rightarrow> (string \<times> string) option" where
  \<comment> \<open>\<open>value = numericval / boolval / stringval / arrayval\<close>; \<open>visit_value\<close>\<close>
  "value_rule s =
     map_option (\<lambda>(v, r). (asscalar v, r))
       (oneof (numericval_rule s)
         (oneof (boolval_rule s) (oneof (stringval_rule s) (arrayval_rule s))))"

definition arraybound_rule :: "string \<Rightarrow> (string \<times> string) option" where
  \<comment> \<open>\<open>arraybound = ~r"(<=)?\d+"\<close>\<close>
  "arraybound_rule s =
     (let prefix = (if startswith s ''<='' then ''<='' else [])
      in case re_plus is_digit09 (drop (length prefix) s) of
           None \<Rightarrow> None
         | Some (digits, r) \<Rightarrow> Some (prefix @ digits, r))"

definition stringbound_rule :: "string \<Rightarrow> (string \<times> string) option" where
  \<comment> \<open>\<open>stringbound = ~r"<=\d+"\<close>\<close>
  "stringbound_rule s =
     (case lit ''<='' s of
        None \<Rightarrow> None
      | Some r \<Rightarrow>
          (case re_plus is_digit09 r of
             None \<Rightarrow> None
           | Some (digits, r') \<Rightarrow> Some (''<='' @ digits, r')))"

definition msgname_rule :: "string \<Rightarrow> (string \<times> string) option" where
  \<comment> \<open>\<open>msgname = ~r"[A-Z]\w*"\<close>\<close>
  "msgname_rule s = re_first_rest is_upper is_word s"

definition packagename_rule :: "string \<Rightarrow> (string \<times> string) option" where
  \<comment> \<open>\<open>packagename = ~r"[a-z][a-z_]*"\<close>\<close>
  "packagename_rule s = re_first_rest is_lower (\<lambda>c. is_lower c \<or> c = CHR ''_'') s"

definition fieldname_rule :: "string \<Rightarrow> (string \<times> string) option" where
  \<comment> \<open>\<open>fieldname = ~r"[a-z][a-z\d_]*"\<close>\<close>
  "fieldname_rule s =
     re_first_rest is_lower (\<lambda>c. is_lower c \<or> is_digit09 c \<or> c = CHR ''_'') s"

definition constname_rule :: "string \<Rightarrow> (string \<times> string) option" where
  \<comment> \<open>\<open>constname = ~r"[A-Z][A-Z\d_]*"\<close>\<close>
  "constname_rule s =
     re_first_rest is_upper (\<lambda>c. is_upper c \<or> is_digit09 c \<or> c = CHR ''_'') s"

definition complextype_rule :: "string \<Rightarrow> ((string \<times> string \<times> bool) \<times> string) option" where
  \<comment> \<open>\<open>complextype = (packagename "/")? msgname\<close>; \<open>visit_complextype\<close>: package, typename
      and \<open>is_complextype\<close>\<close>
  "complextype_rule s =
     (case (case packagename_rule s of
              None \<Rightarrow> ([], s)
            | Some (p, r) \<Rightarrow>
                (case lit ''/'' r of None \<Rightarrow> ([], s) | Some r' \<Rightarrow> (asscalar p, r'))) of
        (package, r) \<Rightarrow>
          (case msgname_rule r of
             None \<Rightarrow> None
           | Some (msgname, r') \<Rightarrow> Some ((package, asscalar msgname, True), r')))"

definition stringtype_rule :: "string \<Rightarrow> ((string \<times> string \<times> bool) \<times> string) option" where
  \<comment> \<open>\<open>stringtype = "string" stringbound?\<close>; \<open>visit_stringtype\<close>\<close>
  "stringtype_rule s =
     (case lit ''string'' s of
        None \<Rightarrow> None
      | Some r \<Rightarrow>
          Some (([], ''string'', False),
                (case stringbound_rule r of None \<Rightarrow> r | Some (b, r') \<Rightarrow> r')))"

definition primitivetype_rule :: "string \<Rightarrow> ((string \<times> string \<times> bool) \<times> string) option" where
  \<comment> \<open>\<open>primitivetype = ~r"[a-z0-9]+"\<close>; \<open>visit_primitivetype\<close>\<close>
  "primitivetype_rule s =
     (case re_plus (\<lambda>c. is_lower c \<or> is_digit09 c) s of
        None \<Rightarrow> None
      | Some (t, r) \<Rightarrow> Some (([], t, False), r))"

definition basetype_rule :: "string \<Rightarrow> ((string \<times> string \<times> bool) \<times> string) option" where
  \<comment> \<open>\<open>basetype = complextype / stringtype / primitivetype\<close>\<close>
  "basetype_rule s =
     oneof (complextype_rule s) (oneof (stringtype_rule s) (primitivetype_rule s))"

definition arrayspec_rule :: "string \<Rightarrow> (string \<times> string) option" where
  \<comment> \<open>\<open>arrayspec = "[" arraybound? "]"\<close>; \<open>visit_arrayspec\<close>: the bound, empty where absent\<close>
  "arrayspec_rule s =
     (case lit ''['' s of
        None \<Rightarrow> None
      | Some r \<Rightarrow>
          (case (case arraybound_rule r of
                   None \<Rightarrow> ([], r)
                 | Some (b, r') \<Rightarrow> (asscalar b, r')) of
             (arraybound, r1) \<Rightarrow>
               (case lit '']'' r1 of None \<Rightarrow> None | Some r2 \<Rightarrow> Some (arraybound, r2))))"

definition type_rule :: "string \<Rightarrow> (msg_type \<times> string) option" where
  \<comment> \<open>\<open>type = basetype arrayspec?\<close>; \<open>visit_type\<close>\<close>
  "type_rule s =
     (case basetype_rule s of
        None \<Rightarrow> None
      | Some ((package, typename, is_complextype), r) \<Rightarrow>
          (case arrayspec_rule r of
             None \<Rightarrow>
               Some (\<lparr>type_package = package, type_typename = typename,
                       type_is_complextype = is_complextype, type_is_array = False,
                       type_arraybound = None\<rparr>, r)
           | Some (arraybound, r') \<Rightarrow>
               Some (\<lparr>type_package = package, type_typename = typename,
                       type_is_complextype = is_complextype, type_is_array = True,
                       type_arraybound = Some arraybound\<rparr>, r')))"

definition field_rule :: "string \<Rightarrow> (params \<times> string) option" where
  \<comment> \<open>\<open>field = type SP fieldname SP !"=" value? SP comment?\<close>; \<open>visit_field\<close>\<close>
  "field_rule s =
     (case type_rule s of
        None \<Rightarrow> None
      | Some (t, r0) \<Rightarrow>
          (case fieldname_rule (SP_rule r0) of
             None \<Rightarrow> None
           | Some (name, r1) \<Rightarrow>
               (let r2 = SP_rule r1 in
                if lit ''='' r2 \<noteq> None then None
                else
                  (case (case value_rule r2 of None \<Rightarrow> ([], r2) | Some (v, r) \<Rightarrow> (v, r)) of
                     (v, r3) \<Rightarrow>
                       (case optional_comment (SP_rule r3) of
                          (c, r4) \<Rightarrow>
                            Some (\<lparr>params_type = t, params_name = name, params_value = v,
                                    params_comment = c\<rparr>, r4))))))"

definition constant_rule :: "string \<Rightarrow> (params \<times> string) option" where
  \<comment> \<open>\<open>constant = type SP constname SP "=" SP value SP comment?\<close>; \<open>visit_constant\<close>\<close>
  "constant_rule s =
     (case type_rule s of
        None \<Rightarrow> None
      | Some (t, r0) \<Rightarrow>
          (case constname_rule (SP_rule r0) of
             None \<Rightarrow> None
           | Some (name, r1) \<Rightarrow>
               (case lit ''='' (SP_rule r1) of
                  None \<Rightarrow> None
                | Some r2 \<Rightarrow>
                    (case value_rule (SP_rule r2) of
                       None \<Rightarrow> None
                     | Some (v, r3) \<Rightarrow>
                         (case optional_comment (SP_rule r3) of
                            (c, r4) \<Rightarrow>
                              Some (\<lparr>params_type = t, params_name = name, params_value = v,
                                      params_comment = c\<rparr>, r4))))))"

definition definition_rule :: "string \<Rightarrow> (line \<times> string) option" where
  \<comment> \<open>\<open>definition = constant / field\<close>\<close>
  "definition_rule s =
     oneof (map_option (\<lambda>(p, r). (ConstantLine p, r)) (constant_rule s))
           (map_option (\<lambda>(p, r). (FieldLine p, r)) (field_rule s))"

definition line_rule :: "string \<Rightarrow> (line option \<times> string) option" where
  \<comment> \<open>\<open>line = SP (comment / definition)? SP EOL\<close>; \<open>visit_line\<close> returns what the
      optional part gave: \<open>None\<close> stands for a line without it\<close>
  "line_rule s =
     (let r0 = SP_rule s in
      case (case oneof (map_option (\<lambda>(c, r). (CommentLine c, r)) (comment_rule r0))
                       (definition_rule r0) of
              None \<Rightarrow> (None, r0)
            | Some (x, r) \<Rightarrow> (Some x, r)) of
        (payload, r1) \<Rightarrow>
          (case EOL_rule (SP_rule r1) of None \<Rightarrow> None | Some r2 \<Rightarrow> Some (payload, r2)))"

definition emptyline_rule :: "string \<Rightarrow> string option" where
  \<comment> \<open>\<open>emptyline = SP EOL\<close>\<close>
  "emptyline_rule s = EOL_rule (SP_rule s)"

text \<open>
  One turn of \<open>(emptyline / line)\<close>. A line without a comment or definition is a match
  of \<open>emptyline\<close>, which is tried first, so \<open>line\<close> is only reached where it cannot match
  without one (\<open>line_rule_payload\<close> below); that case is written as no match.
\<close>

definition item_rule :: "string \<Rightarrow> (line \<times> string) option" where
  "item_rule s =
     (case emptyline_rule s of
        Some r \<Rightarrow> Some (EmptyLine, r)
      | None \<Rightarrow>
          (case line_rule s of
             Some (Some x, r) \<Rightarrow> Some (x, r)
           | _ \<Rightarrow> None))"

text \<open>
  \<open>msg = (emptyline / line)*\<close>: the items matched and the text left over. The repetition
  ends where no item matches, and after an item that matched no text.
\<close>

function msg_rule :: "string \<Rightarrow> line list \<times> string" where
  "msg_rule s =
     (case item_rule s of
        None \<Rightarrow> ([], s)
      | Some (x, r) \<Rightarrow>
          if length r < length s
          then (case msg_rule r of (xs, r') \<Rightarrow> (x # xs, r'))
          else ([x], r))"
  by pat_completeness auto
termination
  by (relation "measure length") auto

declare msg_rule.simps [simp del]

definition parse_msg :: "string \<Rightarrow> line list option" where
  \<comment> \<open>\<open>grammar.parse\<close> raises \<open>IncompleteParseError\<close>, a \<open>ParseError\<close>, where the match of
      \<open>msg\<close> ends before the text does; \<open>parse_msg\<close> then returns \<open>None\<close>\<close>
  "parse_msg msg = (case msg_rule msg of (parsed_msg, []) \<Rightarrow> Some parsed_msg | _ \<Rightarrow> None)"

subsection \<open>Names of files\<close>

function sub_camel :: "string \<Rightarrow> string" where
  \<comment> \<open>\<open>re.sub('(.)([A-Z][a-z]+)', r'\1_\2', name)\<close>\<close>
  "sub_camel (c # u # l # rest) =
     (if c \<noteq> CHR 0x0A \<and> is_upper u \<and> is_lower l
      then c # CHR ''_'' # u # l # takeWhile is_lower rest @ sub_camel (dropWhile is_lower rest)
      else c # sub_camel (u # l # rest))"
| "sub_camel [c, u] = [c, u]"
| "sub_camel [c] = [c]"
| "sub_camel [] = []"
  by pat_completeness auto
termination
  by (relation "measure length") (auto simp: le_imp_less_Suc length_dropWhile_le less_SucI)

fun sub_underscores :: "string \<Rightarrow> string" where
  \<comment> \<open>\<open>re.sub('__([A-Z])', r'_\1', name)\<close>\<close>
  "sub_underscores (a # b # u # rest) =
     (if a = CHR ''_'' \<and> b = CHR ''_'' \<and> is_upper u
      then CHR ''_'' # u # sub_underscores rest
      else a # sub_underscores (b # u # rest))"
| "sub_underscores s = s"

fun sub_lower_upper :: "string \<Rightarrow> string" where
  \<comment> \<open>\<open>re.sub('([a-z0-9])([A-Z])', r'\1_\2', name)\<close>\<close>
  "sub_lower_upper (c # u # rest) =
     (if (is_lower c \<or> is_digit09 c) \<and> is_upper u
      then c # CHR ''_'' # u # sub_lower_upper rest
      else c # sub_lower_upper (u # rest))"
| "sub_lower_upper s = s"

definition to_snake_case :: "string \<Rightarrow> string" where
  "to_snake_case name = lower (sub_lower_upper (sub_underscores (sub_camel name)))"

subsection \<open>Rendering the schema text\<close>

definition INDENT :: string where
  "INDENT = ''  ''"

definition field_typename :: "msg_type \<Rightarrow> string" where
  \<comment> \<open>the type name of a field, qualified with its package and mapped\<close>
  "field_typename t =
     (let typename = type_typename t;
          namespace = type_package t;
          typename = (if namespace \<noteq> [] then namespace @ ''/'' @ typename else typename)
      in msg2proto_map_type typename)"

definition field_imports :: "string \<Rightarrow> string \<Rightarrow> msg_type \<Rightarrow> string set \<Rightarrow> string set" where
  \<comment> \<open>the block under \<open>if type.get("is_complextype")\<close>\<close>
  "field_imports package msg_name t imports =
     (if type_is_complextype t then
        (let typename_parts = split CHR ''.'' (field_typename t);
             typename_parts = (if length typename_parts = 1 then package # typename_parts
                               else typename_parts)
         in if last typename_parts \<noteq> msg_name
            then insert (join ''/'' (butlast typename_parts @
                                      [to_snake_case (last typename_parts)])) imports
            else imports)
      else imports)"

definition field_text :: "params \<Rightarrow> int \<Rightarrow> string" where
  \<comment> \<open>the text that the branch of a field appends to \<open>message\<close>\<close>
  "field_text p fieldnumber =
     (let field = INDENT;
          t = params_type p;
          label = (if type_is_array t then ''repeated'' else []);
          field = (if label \<noteq> [] then field @ label @ '' '' else field);
          typename = field_typename t;
          field = field @ typename @ '' '';
          name = params_name p;
          field = field @ name @ '' = '' @ str_int fieldnumber @ '';'';
          comment = params_comment p;
          comment = (case type_arraybound t of
                       None \<Rightarrow> comment
                     | Some bound \<Rightarrow>
                         if bound \<noteq> [] then ''['' @ bound @ ''] '' @ comment else comment);
          field = (if comment \<noteq> [] then field @ '' // '' @ comment else field)
      in field @ ''\<newline>'')"

definition constant_text :: "params \<Rightarrow> string" where
  \<comment> \<open>the text that the branch of a constant appends to \<open>message\<close>\<close>
  "constant_text p =
     (let constant = INDENT @ ''// '';
          constant = constant @ INDENT;
          name = params_name p;
          v = params_value p;
          constant = constant @ name @ '' = '' @ v @ '';'';
          comment = params_comment p;
          constant = (if comment \<noteq> [] then constant @ '' // '' @ comment else constant)
      in constant @ ''\<newline>'')"

record gen_state =
  st_message :: string
  st_fieldnumber :: int
  st_imports :: "string set"

fun gen_line :: "string \<Rightarrow> string \<Rightarrow> gen_state \<Rightarrow> line \<Rightarrow> gen_state" where
  \<comment> \<open>one turn of the loop \<open>for line in parsed_msg\<close>\<close>
  "gen_line package msg_name st EmptyLine =
     st\<lparr>st_message := st_message st @ ''\<newline>''\<rparr>"
| "gen_line package msg_name st (CommentLine comment) =
     st\<lparr>st_message := st_message st @ INDENT @ ''// '' @ comment @ ''\<newline>''\<rparr>"
| "gen_line package msg_name st (FieldLine p) =
     st\<lparr>st_message := st_message st @ field_text p (st_fieldnumber st),
        st_fieldnumber := st_fieldnumber st + 1,
        st_imports := field_imports package msg_name (params_type p) (st_imports st)\<rparr>"
| "gen_line package msg_name st (ConstantLine p) =
     st\<lparr>st_message := st_message st @ constant_text p\<rparr>"

definition gen_lines :: "string \<Rightarrow> string \<Rightarrow> line list \<Rightarrow> gen_state" where
  \<comment> \<open>the loop, from \<open>message = f"message {msg_name} {{\n"\<close>, \<open>fieldnumber = 1\<close> and
      \<open>imports = set()\<close>\<close>
  "gen_lines package msg_name parsed_msg =
     foldl (gen_line package msg_name)
       \<lparr>st_message = ''message '' @ msg_name @ '' {\<newline>'', st_fieldnumber = 1, st_imports = {}\<rparr>
       parsed_msg"

text \<open>
  Python leaves the order in which a set of strings is iterated open, so the order of the
  import lines is a parameter: \<open>elems\<close> lists the members of a set as the loop
  \<open>for i in imports\<close> meets them.
\<close>

definition generate_proto ::
  "(string set \<Rightarrow> string list) \<Rightarrow> line list \<Rightarrow> string \<Rightarrow> string \<Rightarrow> string" where
  "generate_proto elems parsed_msg msg_name package =
     (let proto = ''// This file was generated. DO NOT EDIT!\<newline>'' @ ''\<newline>'' @
                  ''syntax = '' @ [CHR 0x22] @ ''proto3'' @ [CHR 0x22] @ '';\<newline>'';
          proto = (if package \<noteq> [] then proto @ ''\<newline>'' @ ''package '' @ package @ '';\<newline>''
                   else proto);
          st = gen_lines package msg_name parsed_msg;
          message = st_message st @ ''}'';
          proto = (if st_imports st \<noteq> {}
                   then foldl (\<lambda>proto i. proto @ ''import '' @ [CHR 0x22] @ i @ ''.proto'' @
                                          [CHR 0x22] @ '';\<newline>'')
                          (proto @ ''\<newline>'') (elems (st_imports st))
                   else proto);
          proto = proto @ ''\<newline>''
      in proto @ message)"

definition convert_msg_file ::
  "(string set \<Rightarrow> string list) \<Rightarrow> string \<Rightarrow> string \<Rightarrow> string \<Rightarrow> (string \<times> string) option" where
  \<comment> \<open>the name of the file written under \<open>proto_dir / package\<close> and its text, or \<open>None\<close>
      where no file is written; \<open>msg_name\<close> is the stem of the source file and \<open>msg\<close> its
      text\<close>
  "convert_msg_file elems msg_name msg package =
     (case parse_msg msg of
        None \<Rightarrow> None
      | Some parsed_msg \<Rightarrow>
          if parsed_msg \<noteq> []
          then Some (to_snake_case msg_name @ ''.proto'',
                     generate_proto elems parsed_msg msg_name package)
          else None)"

subsection \<open>What the loops do, item by item\<close>

text \<open>
  The text that one turn of the loop of \<open>generate_proto\<close> appends to \<open>message\<close> for a line,
  where the counter stands at \<open>fieldnumber\<close>: the turn itself, run from the empty text.
\<close>

definition line_text :: "string \<Rightarrow> string \<Rightarrow> int \<Rightarrow> line \<Rightarrow> string" where
  "line_text package msg_name fieldnumber l =
     st_message (gen_line package msg_name
       \<lparr>st_message = [], st_fieldnumber = fieldnumber, st_imports = {}\<rparr> l)"

text \<open>
  \<open>lines_match s xs r\<close>: started on the text \<open>s\<close>, the repetition \<open>(emptyline / line)*\<close> can
  match the items \<open>xs\<close>, one after the other, and arrive at the text \<open>r\<close>.
\<close>

inductive lines_match :: "string \<Rightarrow> line list \<Rightarrow> string \<Rightarrow> bool" where
  lines_match_Nil: "lines_match s [] s"
| lines_match_Cons:
    "item_rule s = Some (x, r) \<Longrightarrow> lines_match r xs r' \<Longrightarrow> lines_match s (x # xs) r'"

subsection \<open>Example documents\<close>

definition plain_type :: "string \<Rightarrow> msg_type" where
  \<comment> \<open>the type dictionary of a primitive type that is no array\<close>
  "plain_type typename =
     \<lparr>type_package = [], type_typename = typename, type_is_complextype = False,
       type_is_array = False, type_arraybound = None\<rparr>"

definition red_constant :: params where
  \<comment> \<open>\<open>uint8 RED = 0 # red color\<close>\<close>
  "red_constant = \<lparr>params_type = plain_type ''uint8'', params_name = ''RED'',
                    params_value = ''0'', params_comment = ''red color''\<rparr>"

definition data_field :: params where
  \<comment> \<open>\<open>int32[10] data\<close>\<close>
  "data_field = \<lparr>params_type = \<lparr>type_package = [], type_typename = ''int32'',
                                   type_is_complextype = False, type_is_array = True,
                                   type_arraybound = Some ''10''\<rparr>,
                  params_name = ''data'', params_value = [], params_comment = []\<rparr>"

definition x_field :: params where
  \<comment> \<open>\<open>float64 x 3.5 # x coordinate\<close>\<close>
  "x_field = \<lparr>params_type = plain_type ''float64'', params_name = ''x'',
               params_value = ''3.5'', params_comment = ''x coordinate''\<rparr>"

definition next_field :: params where
  \<comment> \<open>\<open>Point next\<close>, inside the message \<open>Point\<close>\<close>
  "next_field = \<lparr>params_type = \<lparr>type_package = [], type_typename = ''Point'',
                                   type_is_complextype = True, type_is_array = False,
                                   type_arraybound = None\<rparr>,
                  params_name = ''next'', params_value = [], params_comment = []\<rparr>"

definition y_field :: params where
  \<comment> \<open>\<open>float32 y\<close>\<close>
  "y_field = \<lparr>params_type = plain_type ''float32'', params_name = ''y'',
               params_value = [], params_comment = []\<rparr>"

definition label_field :: params where
  \<comment> \<open>\<open>string label\<close>\<close>
  "label_field = \<lparr>params_type = plain_type ''string'', params_name = ''label'',
                   params_value = [], params_comment = []\<rparr>"

definition values_field :: params where
  \<comment> \<open>\<open>float64[] values\<close>: an array without a bound\<close>
  "values_field = \<lparr>params_type = \<lparr>type_package = [], type_typename = ''float64'',
                                     type_is_complextype = False, type_is_array = True,
                                     type_arraybound = Some []\<rparr>,
                    params_name = ''values'', params_value = [], params_comment = []\<rparr>"

definition points_field :: params where
  \<comment> \<open>\<open>geometry_msgs/Point[<=5] points # way points\<close>\<close>
  "points_field = \<lparr>params_type = \<lparr>type_package = ''geometry_msgs'', type_typename = ''Point'',
                                     type_is_complextype = True, type_is_array = True,
                                     type_arraybound = Some ''<=5''\<rparr>,
                    params_name = ''points'', params_value = [],
                    params_comment = ''way points''\<rparr>"

definition header_line_field :: params where
  \<comment> \<open>\<open>std_msgs/Header header\<close>\<close>
  "header_line_field = \<lparr>params_type = \<lparr>type_package = ''std_msgs'', type_typename = ''Header'',
                                          type_is_complextype = True, type_is_array = False,
                                          type_arraybound = None\<rparr>,
                         params_name = ''header'', params_value = [], params_comment = []\<rparr>"

definition malformed_unit :: string where
  \<comment> \<open>a unit of three lines, the second one malformed\<close>
  "malformed_unit = ''int32 x\<newline>123abc BadType\<newline>int32 y\<newline>''"

definition no_imports :: "string set \<Rightarrow> string list" where
  \<comment> \<open>an order of iteration for documents without imports\<close>
  "no_imports imports = []"

section \<open>Reverse path (protoc\_gen\_msg)\<close>

subsection \<open>The descriptor tree\<close>

text \<open>
  The parts of the descriptor messages that the plugin reads. A field's \<open>type\<close> and
  \<open>label\<close> are the integers of their enum members.
\<close>

record EnumValueDescriptorProto =
  value_name :: string
  value_number :: int

record EnumDescriptorProto =
  enum_name :: string
  enum_value :: "EnumValueDescriptorProto list"

record FieldDescriptorProto =
  field_name :: string
  field_type :: int
  field_type_name :: string
  field_label :: int

datatype DescriptorProto =
  DescriptorProto
    (message_name: string)
    (message_field: "FieldDescriptorProto list")
    (message_nested_type: "DescriptorProto list")
    (message_enum_type: "EnumDescriptorProto list")

record FileDescriptorProto =
  file_package :: string
  file_message_type :: "DescriptorProto list"
  file_enum_type :: "EnumDescriptorProto list"

record CodeGeneratorRequest =
  request_proto_file :: "FileDescriptorProto list"

record CodeGeneratorResponse =
  response_error :: "string option"
  response_file :: "(string \<times> string) list"

datatype py_error = IndexError

datatype py_value = PyStr string | PyInt int

subsection \<open>Tables\<close>

definition CONSTANT_FIELD_TYPE :: string where
  "CONSTANT_FIELD_TYPE = ''uint8''"

definition map_type_name_map :: "(string \<times> string) list" where
  "map_type_name_map =
    [(''google.protobuf.Timestamp'', ''builtin_interfaces/Time''),
     (''google.protobuf.Duration'', ''builtin_interfaces/Duration''),
     (''google.protobuf.Empty'', ''std_msgs/Empty''),
     (''google.protobuf.DoubleValue'', ''std_msgs/Float64''),
     (''google.protobuf.FloatValue'', ''std_msgs/Float32''),
     (''google.protobuf.Int64Value'', ''std_msgs/Int64''),
     (''google.protobuf.UInt64Value'', ''std_msgs/UInt64''),
     (''google.protobuf.Int32Value'', ''std_msgs/Int32''),
     (''google.protobuf.UInt32Value'', ''std_msgs/UInt32''),
     (''google.protobuf.BoolValue'', ''std_msgs/Bool''),
     (''google.protobuf.StringValue'', ''std_msgs/String''),
     (''google.protobuf.BytesValue'', ''std_msgs/String'')]"

definition map_type_name :: "string \<Rightarrow> string" where
  \<comment> \<open>\<open>map.get(field_type_name, "std_msgs/String")\<close>\<close>
  "map_type_name type_name =
     (case map_of (rev map_type_name_map) type_name of
        Some t \<Rightarrow> t
      | None \<Rightarrow> ''std_msgs/String'')"

definition map_label_map :: "(int \<times> string) list" where
  "map_label_map =
    [(LABEL_OPTIONAL, ''LABEL_OPTIONAL''),
     (LABEL_REPEATED, ''LABEL_REPEATED''),
     (LABEL_REQUIRED, ''LABEL_REQUIRED'')]"

definition map_label :: "int \<Rightarrow> py_value" where
  \<comment> \<open>\<open>map.get(label_type, label_type)\<close>: the name, or the integer itself\<close>
  "map_label label_type =
     (case map_of (rev map_label_map) label_type of Some l \<Rightarrow> PyStr l | None \<Rightarrow> PyInt label_type)"

subsection \<open>Rendering one message\<close>

definition generate_enum :: "EnumDescriptorProto \<Rightarrow> string" where
  "generate_enum enum =
     foldl (\<lambda>output v. output @ CONSTANT_FIELD_TYPE @ '' '' @ value_name v @ ''='' @
                         str_int (value_number v) @ [CHR 0x0A])
       ([CHR 0x0A] @ ''# '' @ enum_name enum @ [CHR 0x0A]) (enum_value enum)"

definition message_fieldtype :: "string \<Rightarrow> string \<Rightarrow> py_error + string" where
  \<comment> \<open>the branch of a field of message type: from \<open>field.type_name\<close> to the rendered name;
      \<open>fieldtype.split('.')[1]\<close> raises where the name has no period\<close>
  "message_fieldtype package type_name =
     (case split CHR ''.'' type_name of
        _ # namespace # _ \<Rightarrow>
          (let fieldtype = (if namespace = package then last (split CHR ''.'' type_name)
                            else drop 1 type_name);
               fieldtype = (if startswith fieldtype ''google.protobuf''
                            then map_type_name fieldtype else fieldtype)
           in Inr (replace CHR ''.'' CHR ''/'' fieldtype))
      | _ \<Rightarrow> Inl IndexError)"

definition field_type_and_comment ::
  "string \<Rightarrow> FieldDescriptorProto \<Rightarrow> py_error + (string \<times> string \<times> string option)" where
  \<comment> \<open>the three branches of the loop body: the rendered type, the comment and the enum
      name to add to \<open>referenced_enums\<close>, if any\<close>
  "field_type_and_comment package field =
     (let mapped_field_type = protoc_gen_msg_map_type (field_type field) in
      if mapped_field_type = ''TYPE_MESSAGE'' then
        (case message_fieldtype package (field_type_name field) of
           Inl e \<Rightarrow> Inl e
         | Inr fieldtype \<Rightarrow> Inr (fieldtype, [], None))
      else if mapped_field_type = ''TYPE_ENUM'' then
        (let name = last (split CHR ''.'' (field_type_name field))
         in Inr (CONSTANT_FIELD_TYPE, ''# '' @ name, Some name))
      else Inr (mapped_field_type, [], None))"

definition generate_field ::
  "string \<Rightarrow> string \<times> string set \<Rightarrow> FieldDescriptorProto
     \<Rightarrow> py_error + (string \<times> string set)" where
  \<comment> \<open>one turn of the loop over \<open>message.field\<close>\<close>
  "generate_field package st field =
     (case st of (output, referenced_enums) \<Rightarrow>
      (case field_type_and_comment package field of
         Inl e \<Rightarrow> Inl e
       | Inr (fieldtype, fieldcomment, ref) \<Rightarrow>
           (let referenced_enums =
                  (case ref of None \<Rightarrow> referenced_enums
                            | Some n \<Rightarrow> insert n referenced_enums);
                fieldtype = (if map_label (field_label field) = PyStr ''LABEL_REPEATED''
                             then fieldtype @ ''[]'' else fieldtype)
            in Inr (output @ fieldtype @ '' '' @ field_name field @ '' '' @ fieldcomment @
                      [CHR 0x0A],
                    referenced_enums))))"

fun generate_fields ::
  "string \<Rightarrow> string \<times> string set \<Rightarrow> FieldDescriptorProto list
     \<Rightarrow> py_error + (string \<times> string set)" where
  "generate_fields package st [] = Inr st"
| "generate_fields package st (field # rest) =
     (case generate_field package st field of
        Inl e \<Rightarrow> Inl e
      | Inr st' \<Rightarrow> generate_fields package st' rest)"

definition generate_message ::
  "DescriptorProto \<Rightarrow> string \<Rightarrow> py_error + (string \<times> string set \<times> string option)" where
  "generate_message message package =
     (case generate_fields package
             (''# This file was generated. DO NOT EDIT!'' @ [CHR 0x0A, CHR 0x0A] @
              ''# '' @ message_name message @ [CHR 0x0A], {})
             (message_field message) of
        Inl e \<Rightarrow> Inl e
      | Inr (output, referenced_enums) \<Rightarrow> Inr (output, referenced_enums, None))"

fun add_referenced_enums ::
  "EnumDescriptorProto list \<Rightarrow> string \<times> string set \<Rightarrow> string \<times> string set" where
  \<comment> \<open>the loop \<open>for enum in enums\<close> of \<open>generate_msg_file\<close>\<close>
  "add_referenced_enums [] st = st"
| "add_referenced_enums (enum # enums) (output, referenced_enums) =
     (if enum_name enum \<in> referenced_enums
      then add_referenced_enums enums
             (output @ generate_enum enum, referenced_enums - {enum_name enum})
      else add_referenced_enums enums (output, referenced_enums))"

definition generate_msg_file ::
  "DescriptorProto \<Rightarrow> string \<Rightarrow> EnumDescriptorProto list \<Rightarrow> CodeGeneratorResponse
     \<Rightarrow> py_error + CodeGeneratorResponse" where
  "generate_msg_file message package enums response =
     (case generate_message message package of
        Inl e \<Rightarrow> Inl e
      | Inr (output, referenced_enums, errors) \<Rightarrow>
          (let output = fst (add_referenced_enums enums (output, referenced_enums)) in
           case errors of
             Some err \<Rightarrow> Inr (response\<lparr>response_error := Some err\<rparr>)
           | None \<Rightarrow>
               Inr (response\<lparr>response_file := response_file response @
                      [(package @ ''/'' @ message_name message @ ''.msg'', output)]\<rparr>)))"

subsection \<open>Walking the file\<close>

text \<open>
  \<open>collect_enums\<close> binds \<open>enums\<close> to the file's own \<open>enum_type\<close> list and extends that
  list in place, so the function is modelled by the file it leaves behind: the list it
  returns is \<open>file_enum_type\<close> of that file.
\<close>

definition collect_enums :: "FileDescriptorProto \<Rightarrow> FileDescriptorProto" where
  "collect_enums proto_file =
     foldl (\<lambda>pf message. pf\<lparr>file_enum_type := file_enum_type pf @ message_enum_type message\<rparr>)
       proto_file (file_message_type proto_file)"

fun generate_nested ::
  "string \<Rightarrow> EnumDescriptorProto list \<Rightarrow> DescriptorProto list \<Rightarrow> CodeGeneratorResponse
     \<Rightarrow> py_error + CodeGeneratorResponse" where
  \<comment> \<open>the inner loop over \<open>message.nested_type\<close>\<close>
  "generate_nested package enums [] response = Inr response"
| "generate_nested package enums (nested_message # rest) response =
     (case generate_msg_file nested_message package enums response of
        Inl e \<Rightarrow> Inl e
      | Inr response' \<Rightarrow> generate_nested package enums rest response')"

fun generate_messages ::
  "string \<Rightarrow> EnumDescriptorProto list \<Rightarrow> DescriptorProto list \<Rightarrow> CodeGeneratorResponse
     \<Rightarrow> py_error + CodeGeneratorResponse" where
  \<comment> \<open>the loop over \<open>proto_file.message_type\<close>\<close>
  "generate_messages package enums [] response = Inr response"
| "generate_messages package enums (message # rest) response =
     (case generate_msg_file message package enums response of
        Inl e \<Rightarrow> Inl e
      | Inr response' \<Rightarrow>
          (case generate_nested package enums (message_nested_type message) response' of
             Inl e \<Rightarrow> Inl e
           | Inr response'' \<Rightarrow> generate_messages package enums rest response''))"

definition generate_msg_files ::
  "FileDescriptorProto \<Rightarrow> CodeGeneratorResponse
     \<Rightarrow> py_error + (FileDescriptorProto \<times> CodeGeneratorResponse)" where
  \<comment> \<open>returns the file as the call leaves it, and the response\<close>
  "generate_msg_files proto_file response =
     (let proto_file = collect_enums proto_file;
          enums = file_enum_type proto_file
      in case generate_messages (file_package proto_file) enums
                (file_message_type proto_file) response of
           Inl e \<Rightarrow> Inl e
         | Inr response' \<Rightarrow> Inr (proto_file, response'))"

definition generate_code ::
  "CodeGeneratorRequest \<Rightarrow> CodeGeneratorResponse
     \<Rightarrow> py_error + (CodeGeneratorRequest \<times> CodeGeneratorResponse)" where
  \<comment> \<open>\<open>request.proto_file[-1]\<close> raises on a request without files; the request is
      returned as the call leaves it\<close>
  "generate_code request response =
     (if request_proto_file request = [] then Inl IndexError
      else case generate_msg_files (last (request_proto_file request)) response of
             Inl e \<Rightarrow> Inl e
           | Inr (pf, response') \<Rightarrow>
               Inr (request\<lparr>request_proto_file := butlast (request_proto_file request) @ [pf]\<rparr>,
                    response'))"

subsection \<open>The enum blocks of a message file\<close>

text \<open>
  The enums whose block the loop of \<open>generate_msg_file\<close> appends to the output, in the
  order of the appending: the loop's own tests, with the enum kept in place of its text.
\<close>

fun inlined_enums :: "EnumDescriptorProto list \<Rightarrow> string set \<Rightarrow> EnumDescriptorProto list" where
  "inlined_enums [] referenced_enums = []"
| "inlined_enums (enum # enums) referenced_enums =
     (if enum_name enum \<in> referenced_enums
      then enum # inlined_enums enums (referenced_enums - {enum_name enum})
      else inlined_enums enums referenced_enums)"

subsection \<open>Example descriptors\<close>

definition status_enum :: EnumDescriptorProto where
  "status_enum = \<lparr>enum_name = ''Status'',
                   enum_value = [\<lparr>value_name = ''OK'', value_number = 0\<rparr>,
                                 \<lparr>value_name = ''ERR'', value_number = 1\<rparr>]\<rparr>"

definition other_status_enum :: EnumDescriptorProto where
  "other_status_enum = \<lparr>enum_name = ''Status'',
                         enum_value = [\<lparr>value_name = ''OTHER'', value_number = 7\<rparr>]\<rparr>"

definition report_message :: DescriptorProto where
  \<comment> \<open>a message with two fields of the enum \<open>Status\<close>, which it declares itself\<close>
  "report_message = DescriptorProto ''Report''
     [\<lparr>field_name = ''status'', field_type = TYPE_ENUM,
        field_type_name = ''.diagnostics.Report.Status'', field_label = LABEL_OPTIONAL\<rparr>,
      \<lparr>field_name = ''previous'', field_type = TYPE_ENUM,
        field_type_name = ''.diagnostics.Report.Status'', field_label = LABEL_OPTIONAL\<rparr>]
     [] [status_enum]"

definition report_file :: FileDescriptorProto where
  "report_file = \<lparr>file_package = ''diagnostics'', file_message_type = [report_message],
                   file_enum_type = []\<rparr>"

definition header_field :: FieldDescriptorProto where
  "header_field = \<lparr>field_name = ''header'', field_type = TYPE_MESSAGE,
                    field_type_name = ''.diagnostics.Header'', field_label = LABEL_OPTIONAL\<rparr>"

definition dotted_header_field :: FieldDescriptorProto where
  \<comment> \<open>a field of the message type \<open>Header\<close> of the package \<open>robot.diagnostics\<close>\<close>
  "dotted_header_field = \<lparr>field_name = ''header'', field_type = TYPE_MESSAGE,
                           field_type_name = ''.robot.diagnostics.Header'',
                           field_label = LABEL_OPTIONAL\<rparr>"

definition sub_header_field :: FieldDescriptorProto where
  \<comment> \<open>a field of the message type \<open>Header\<close> of the package \<open>diagnostics.sub\<close>\<close>
  "sub_header_field = \<lparr>field_name = ''header'', field_type = TYPE_MESSAGE,
                        field_type_name = ''.diagnostics.sub.Header'',
                        field_label = LABEL_OPTIONAL\<rparr>"

definition dotted_report_message :: DescriptorProto where
  \<comment> \<open>a message of the package \<open>robot.diagnostics\<close> with a field of a type of that package\<close>
  "dotted_report_message = DescriptorProto ''Report'' [dotted_header_field] [] []"



definition empty_response :: CodeGeneratorResponse where
  "empty_response = \<lparr>response_error = None, response_file = []\<rparr>"

section \<open>Properties\<close>

text \<open>
  C2. Every scalar-preserving primitive type name of the message format, that is each of
  float64, float32, int64, uint64, int32, uint32, bool and string, is mapped back to itself
  by the reverse table after the forward table: the forward table gives a scalar keyword
  of the schema language, and the reverse table gives the original name at the descriptor
  type of that keyword.
\<close>

theorem primitive_round_trip:
  "t \<in> {''float64'', ''float32'', ''int64'', ''uint64'', ''int32'', ''uint32'', ''bool'', ''string''}
   \<Longrightarrow> toSourcePrimitive (toTargetPrimitive t) = Some t"
  by (elim insertE emptyE; simp add: toSourcePrimitive_def toTargetPrimitive_def
      msg2proto_map_type_def msg2proto_map_def protoc_gen_msg_map_type_def
      protoc_gen_msg_map_def scalar_keyword_type_def)

theorem primitive_round_trip_witness:
  "toSourcePrimitive (toTargetPrimitive ''float64'') = Some ''float64''"
  using primitive_round_trip [of "''float64''"] by simp

subsection \<open>Reverse path: helper facts\<close>

lemma split_not_Nil: "split sep s \<noteq> []"
  by (induction s) (auto split: list.splits)

lemma last_split_no_sep: "sep \<notin> set (last (split sep s))"
  by (induction s) (auto split: list.splits simp: split_not_Nil)

lemma map_type_message_iff:
  "protoc_gen_msg_map_type t = ''TYPE_MESSAGE'' \<longleftrightarrow> t = TYPE_MESSAGE"
  by (simp add: protoc_gen_msg_map_type_def protoc_gen_msg_map_def)

lemma map_type_enum_iff:
  "protoc_gen_msg_map_type t = ''TYPE_ENUM'' \<longleftrightarrow> t = TYPE_ENUM"
  by (simp add: protoc_gen_msg_map_type_def protoc_gen_msg_map_def)

lemma map_label_repeated_iff:
  "map_label l = PyStr ''LABEL_REPEATED'' \<longleftrightarrow> l = LABEL_REPEATED"
  by (simp add: map_label_def map_label_map_def)

lemma map_type_name_no_period: "CHR ''.'' \<notin> set (map_type_name x)"
  by (simp add: map_type_name_def map_type_name_map_def)

lemma replace_id: "a \<notin> set s \<Longrightarrow> replace a b s = s"
  by (induction s) (auto simp: replace_def)

lemma not_startswith_wellknown:
  "CHR ''.'' \<notin> set s \<Longrightarrow> \<not> startswith s ''google.protobuf''"
proof
  assume a: "CHR ''.'' \<notin> set s" and b: "startswith s ''google.protobuf''"
  from b have t: "take (length ''google.protobuf'') s = ''google.protobuf''"
    unfolding startswith_def .
  have "CHR ''.'' \<in> set (take (length ''google.protobuf'') s)" by (subst t) simp
  then have "CHR ''.'' \<in> set s" by (rule in_set_takeD)
  with a show False by simp
qed

lemma message_fieldtype_qualified:
  "message_fieldtype package (CHR ''.'' # path) =
     Inr (if hd (split CHR ''.'' path) = package then last (split CHR ''.'' path)
          else if startswith path ''google.protobuf'' then map_type_name path
          else replace CHR ''.'' CHR ''/'' path)"
proof -
  obtain ns rest where s: "split CHR ''.'' path = ns # rest"
    using split_not_Nil [of "CHR ''.''" path] by (cases "split CHR ''.'' path") auto
  define loc where "loc = last (split CHR ''.'' path)"
  have n: "CHR ''.'' \<notin> set loc"
    unfolding loc_def by (rule last_split_no_sep)
  have sp: "split CHR ''.'' (CHR ''.'' # path) = [] # ns # rest"
    by (simp add: s)
  have l: "last ([] # ns # rest) = loc"
    by (simp add: loc_def s)
  have h: "hd (split CHR ''.'' path) = ns"
    by (simp add: s)
  show ?thesis
  proof (cases "ns = package")
    case True
    have "message_fieldtype package (CHR ''.'' # path) = Inr loc"
      using n
      by (simp add: message_fieldtype_def sp [unfolded True] l [unfolded True] Let_def
          not_startswith_wellknown replace_id del: last.simps split.simps)
    with True show ?thesis
      unfolding h loc_def by simp
  next
    case False
    have "message_fieldtype package (CHR ''.'' # path) =
       Inr (if startswith path ''google.protobuf'' then map_type_name path
            else replace CHR ''.'' CHR ''/'' path)"
      using False
      by (simp add: message_fieldtype_def sp Let_def replace_id map_type_name_no_period
          del: last.simps split.simps)
    with False show ?thesis
      unfolding h by simp
  qed
qed

lemma generate_fields_refs:
  "generate_fields package (out, refs) fs = Inr (out', refs') \<Longrightarrow>
   refs' = refs \<union> {last (split CHR ''.'' (field_type_name f)) | f.
                      f \<in> set fs \<and> field_type f = TYPE_ENUM}"
proof (induction fs arbitrary: out refs)
  case Nil
  then show ?case by simp
next
  case (Cons f fs)
  from Cons.prems obtain out1 refs1 where
    step: "generate_field package (out, refs) f = Inr (out1, refs1)"
    and rest: "generate_fields package (out1, refs1) fs = Inr (out', refs')"
    by (auto split: sum.splits)
  from step have "refs1 = (if field_type f = TYPE_ENUM
                           then insert (last (split CHR ''.'' (field_type_name f))) refs else refs)"
    by (auto simp: generate_field_def field_type_and_comment_def Let_def map_type_message_iff
        map_type_enum_iff split: sum.splits if_splits)
  with Cons.IH [OF rest] show ?case by auto
qed

lemma add_referenced_enums_output:
  "fst (add_referenced_enums enums (out, refs)) =
     out @ concat (map generate_enum (inlined_enums enums refs))"
  by (induction enums arbitrary: out refs) auto

lemma inlined_enums_absent:
  "n \<notin> refs \<Longrightarrow> filter (\<lambda>e. enum_name e = n) (inlined_enums enums refs) = []"
  by (induction enums arbitrary: refs) auto

lemma inlined_enums_once:
  "n \<in> refs \<Longrightarrow> n \<in> enum_name ` set enums \<Longrightarrow>
   length (filter (\<lambda>e. enum_name e = n) (inlined_enums enums refs)) = 1"
proof (induction enums arbitrary: refs)
  case Nil
  then show ?case by simp
next
  case (Cons e es)
  show ?case
  proof (cases "enum_name e = n")
    case True
    with Cons.prems show ?thesis by (simp add: inlined_enums_absent)
  next
    case False
    with Cons.prems have "n \<in> enum_name ` set es" by auto
    with False Cons.prems Cons.IH [of refs] Cons.IH [of "refs - {enum_name e}"]
    show ?thesis by auto
  qed
qed

lemma collect_enums_fold:
  "foldl (\<lambda>pf message. pf\<lparr>file_enum_type := file_enum_type pf @ message_enum_type message\<rparr>)
     pf ms = pf\<lparr>file_enum_type := file_enum_type pf @ concat (map message_enum_type ms)\<rparr>"
  by (induction ms arbitrary: pf) auto

lemma collect_enums_extends:
  "collect_enums pf =
     pf\<lparr>file_enum_type := file_enum_type pf @
          concat (map message_enum_type (file_message_type pf))\<rparr>"
  by (simp add: collect_enums_def collect_enums_fold)

lemma generate_code_request:
  "generate_code request response = Inr (request', response') \<Longrightarrow>
   request' = request\<lparr>request_proto_file := butlast (request_proto_file request) @
     [(last (request_proto_file request))\<lparr>file_enum_type :=
        file_enum_type (last (request_proto_file request)) @
        concat (map message_enum_type (file_message_type (last (request_proto_file request))))\<rparr>]\<rparr>"
  by (auto simp: generate_code_def generate_msg_files_def Let_def collect_enums_extends
      split: if_splits sum.splits)

lemma generate_field_message_kind:
  assumes "field_type field = TYPE_MESSAGE"
    and "field_type_name field = CHR ''.'' # path"
  shows "generate_field package (out, refs) field =
           Inr (out @
                (if hd (split CHR ''.'' path) = package then last (split CHR ''.'' path)
                 else if startswith path ''google.protobuf'' then map_type_name path
                 else replace CHR ''.'' CHR ''/'' path) @
                (if field_label field = LABEL_REPEATED then ''[]'' else []) @
                '' '' @ field_name field @ '' '' @ [CHR 0x0A],
                refs)"
  using assms
  by (simp add: generate_field_def field_type_and_comment_def map_type_message_iff [THEN iffD2]
      message_fieldtype_qualified map_label_repeated_iff Let_def)

subsection \<open>Reverse path: the claims\<close>

text \<open>
  C4. Where rendering a message succeeds, its fields reference the enum name \<open>n\<close> at least
  once and an enum of that name is in the collected list, the file generated for the
  message is the message text followed by the blocks of the inlined enums, and exactly one
  of these blocks is a block of an enum named \<open>n\<close>.
\<close>

theorem enum_inlined_exactly_once:
  assumes "generate_message message package = Inr (out, referenced_enums, errors)"
    and "1 \<le> length (filter (\<lambda>f. field_type f = TYPE_ENUM \<and>
                 last (split CHR ''.'' (field_type_name f)) = n) (message_field message))"
    and "n \<in> enum_name ` set enums"
  shows "generate_msg_file message package enums response =
           Inr (response\<lparr>response_file := response_file response @
                  [(package @ ''/'' @ message_name message @ ''.msg'',
                    out @ concat (map generate_enum (inlined_enums enums referenced_enums)))]\<rparr>)
         \<and> length (filter (\<lambda>e. enum_name e = n) (inlined_enums enums referenced_enums)) = 1"
proof -
  from assms(1) obtain out0 where
    fields: "generate_fields package (out0, {}) (message_field message) = Inr (out, referenced_enums)"
    and errors: "errors = None"
    by (auto simp: generate_message_def split: sum.splits)
  from assms(2) have "filter (\<lambda>f. field_type f = TYPE_ENUM \<and>
                 last (split CHR ''.'' (field_type_name f)) = n) (message_field message) \<noteq> []"
    by auto
  then obtain f where "f \<in> set (message_field message)" "field_type f = TYPE_ENUM"
    "last (split CHR ''.'' (field_type_name f)) = n"
    unfolding filter_empty_conv by blast
  with generate_fields_refs [OF fields] have "n \<in> referenced_enums" by auto
  then have once: "length (filter (\<lambda>e. enum_name e = n) (inlined_enums enums referenced_enums)) = 1"
    using assms(3) by (rule inlined_enums_once)
  have "generate_msg_file message package enums response =
           Inr (response\<lparr>response_file := response_file response @
                  [(package @ ''/'' @ message_name message @ ''.msg'',
                    out @ concat (map generate_enum (inlined_enums enums referenced_enums)))]\<rparr>)"
    using assms(1) errors
    by (simp add: generate_msg_file_def add_referenced_enums_output)
  with once show ?thesis by simp
qed

theorem enum_inlined_exactly_once_witness:
  "generate_message report_message ''diagnostics'' =
     Inr (''# This file was generated. DO NOT EDIT!'' @ [CHR 0x0A, CHR 0x0A] @
          ''# Report'' @ [CHR 0x0A] @
          ''uint8 status # Status'' @ [CHR 0x0A] @
          ''uint8 previous # Status'' @ [CHR 0x0A], {''Status''}, None)
   \<and> length (filter (\<lambda>f. field_type f = TYPE_ENUM \<and>
               last (split CHR ''.'' (field_type_name f)) = ''Status'')
               (message_field report_message)) = 2
   \<and> ''Status'' \<in> enum_name ` set [status_enum, other_status_enum]
   \<and> generate_msg_file report_message ''diagnostics'' [status_enum, other_status_enum]
        empty_response =
      Inr \<lparr>response_error = None,
           response_file = [(''diagnostics/Report.msg'',
             ''# This file was generated. DO NOT EDIT!'' @ [CHR 0x0A, CHR 0x0A] @
             ''# Report'' @ [CHR 0x0A] @
             ''uint8 status # Status'' @ [CHR 0x0A] @
             ''uint8 previous # Status'' @ [CHR 0x0A] @ [CHR 0x0A] @
             ''# Status'' @ [CHR 0x0A] @
             ''uint8 OK=0'' @ [CHR 0x0A] @
             ''uint8 ERR=1'' @ [CHR 0x0A])]\<rparr>
   \<and> length (filter (\<lambda>e. enum_name e = ''Status'')
         (inlined_enums [status_enum, other_status_enum] {''Status''})) = 1"
proof -
  have h1: "generate_message report_message ''diagnostics'' =
     Inr (''# This file was generated. DO NOT EDIT!'' @ [CHR 0x0A, CHR 0x0A] @
          ''# Report'' @ [CHR 0x0A] @
          ''uint8 status # Status'' @ [CHR 0x0A] @
          ''uint8 previous # Status'' @ [CHR 0x0A], {''Status''}, None)"
    by code_simp
  have k: "length (filter (\<lambda>f. field_type f = TYPE_ENUM \<and>
               last (split CHR ''.'' (field_type_name f)) = ''Status'')
               (message_field report_message)) = 2"
    by code_simp
  then have h2: "1 \<le> length (filter (\<lambda>f. field_type f = TYPE_ENUM \<and>
               last (split CHR ''.'' (field_type_name f)) = ''Status'')
               (message_field report_message))"
    by simp
  have h3: "''Status'' \<in> enum_name ` set [status_enum, other_status_enum]"
    by (simp add: status_enum_def)
  have c: "generate_msg_file report_message ''diagnostics''
        [status_enum, other_status_enum] empty_response =
      Inr \<lparr>response_error = None,
           response_file = [(''diagnostics/Report.msg'',
             ''# This file was generated. DO NOT EDIT!'' @ [CHR 0x0A, CHR 0x0A] @
             ''# Report'' @ [CHR 0x0A] @
             ''uint8 status # Status'' @ [CHR 0x0A] @
             ''uint8 previous # Status'' @ [CHR 0x0A] @ [CHR 0x0A] @
             ''# Status'' @ [CHR 0x0A] @
             ''uint8 OK=0'' @ [CHR 0x0A] @
             ''uint8 ERR=1'' @ [CHR 0x0A])]\<rparr>"
    by code_simp
  from enum_inlined_exactly_once [OF h1 h2 h3, of empty_response]
  have once: "length (filter (\<lambda>e. enum_name e = ''Status'')
               (inlined_enums [status_enum, other_status_enum] {''Status''})) = 1"
    by (rule conjunct2)
  from h1 k h3 c once show ?thesis by blast
qed

text \<open>
  C5. The claim is that a field of message kind whose type lives in the current package
  is rendered as the local name alone. The test of \<open>generate_message\<close> compares the current
  package with the first segment of the qualified name, so it agrees with the claim for
  \<open>.diagnostics.Header\<close> in the package \<open>diagnostics\<close>, which gives \<open>Header\<close>, and no longer
  where a package name has a period: in the package \<open>robot.diagnostics\<close> the type
  \<open>.robot.diagnostics.Header\<close> of that same package is rendered \<open>robot/diagnostics/Header\<close>,
  and in the package \<open>diagnostics\<close> the type \<open>.diagnostics.sub.Header\<close> of another package
  is rendered \<open>Header\<close>.
\<close>

theorem same_package_test_reads_first_segment:
  "generate_field ''diagnostics'' ([], {}) header_field =
      Inr (''Header header '' @ [CHR 0x0A], {})
   \<and> field_type dotted_header_field = TYPE_MESSAGE
   \<and> field_type_name dotted_header_field = ''.robot.diagnostics.Header''
   \<and> split CHR ''.'' (field_type_name dotted_header_field) =
       [[], ''robot'', ''diagnostics'', ''Header'']
   \<and> generate_field ''robot.diagnostics'' ([], {}) dotted_header_field =
       Inr (''robot/diagnostics/Header header '' @ [CHR 0x0A], {})
   \<and> generate_field ''robot.diagnostics'' ([], {}) dotted_header_field \<noteq>
       Inr (''Header header '' @ [CHR 0x0A], {})
   \<and> generate_message dotted_report_message ''robot.diagnostics'' =
       Inr (''# This file was generated. DO NOT EDIT!'' @ [CHR 0x0A, CHR 0x0A] @
            ''# Report'' @ [CHR 0x0A] @
            ''robot/diagnostics/Header header '' @ [CHR 0x0A], {}, None)
   \<and> field_type sub_header_field = TYPE_MESSAGE
   \<and> field_type_name sub_header_field = ''.diagnostics.sub.Header''
   \<and> generate_field ''diagnostics'' ([], {}) sub_header_field =
       Inr (''Header header '' @ [CHR 0x0A], {})
   \<and> generate_field ''diagnostics'' ([], {}) sub_header_field \<noteq>
       Inr (''diagnostics/sub/Header header '' @ [CHR 0x0A], {})"
proof -
  have a: "generate_field ''diagnostics'' ([], {}) header_field =
      Inr (''Header header '' @ [CHR 0x0A], {})"
    by code_simp
  have b: "field_type dotted_header_field = TYPE_MESSAGE"
    "field_type_name dotted_header_field = ''.robot.diagnostics.Header''"
    "field_type sub_header_field = TYPE_MESSAGE"
    "field_type_name sub_header_field = ''.diagnostics.sub.Header''"
    by (simp_all add: dotted_header_field_def sub_header_field_def)
  have c: "split CHR ''.'' (field_type_name dotted_header_field) =
       [[], ''robot'', ''diagnostics'', ''Header'']"
    by code_simp
  have d: "generate_field ''robot.diagnostics'' ([], {}) dotted_header_field =
       Inr (''robot/diagnostics/Header header '' @ [CHR 0x0A], {})"
    by code_simp
  have d': "generate_field ''robot.diagnostics'' ([], {}) dotted_header_field \<noteq>
       Inr (''Header header '' @ [CHR 0x0A], {})"
    unfolding d by simp
  have e: "generate_message dotted_report_message ''robot.diagnostics'' =
       Inr (''# This file was generated. DO NOT EDIT!'' @ [CHR 0x0A, CHR 0x0A] @
            ''# Report'' @ [CHR 0x0A] @
            ''robot/diagnostics/Header header '' @ [CHR 0x0A], {}, None)"
    by code_simp
  have f: "generate_field ''diagnostics'' ([], {}) sub_header_field =
       Inr (''Header header '' @ [CHR 0x0A], {})"
    by code_simp
  have f': "generate_field ''diagnostics'' ([], {}) sub_header_field \<noteq>
       Inr (''diagnostics/sub/Header header '' @ [CHR 0x0A], {})"
    unfolding f by simp
  from a b c d d' e f f' show ?thesis
    by blast
qed




text \<open>
  C10. The claim is that the selected file of the request is unchanged by
  \<open>generate_code\<close>. On a file whose one message declares an enum, and which has no
  top-level enum, the call leaves the file with that enum in its top-level enum list:
  \<open>collect_enums\<close> extends the list it was given. The messages and their nested enum
  lists are as before.
\<close>

theorem generate_code_extends_request:
  "generate_code \<lparr>request_proto_file = [report_file]\<rparr> empty_response =
      Inr (\<lparr>request_proto_file = [report_file\<lparr>file_enum_type := [status_enum]\<rparr>]\<rparr>,
           \<lparr>response_error = None,
             response_file = [(''diagnostics/Report.msg'',
               ''# This file was generated. DO NOT EDIT!'' @ [CHR 0x0A, CHR 0x0A] @
               ''# Report'' @ [CHR 0x0A] @
               ''uint8 status # Status'' @ [CHR 0x0A] @
               ''uint8 previous # Status'' @ [CHR 0x0A] @ [CHR 0x0A] @
               ''# Status'' @ [CHR 0x0A] @
               ''uint8 OK=0'' @ [CHR 0x0A] @
               ''uint8 ERR=1'' @ [CHR 0x0A])]\<rparr>)
   \<and> file_enum_type report_file = []
   \<and> \<lparr>request_proto_file = [report_file\<lparr>file_enum_type := [status_enum]\<rparr>]\<rparr> \<noteq>
       \<lparr>request_proto_file = [report_file]\<rparr>"
proof -
  have a: "generate_code \<lparr>request_proto_file = [report_file]\<rparr> empty_response =
      Inr (\<lparr>request_proto_file = [report_file\<lparr>file_enum_type := [status_enum]\<rparr>]\<rparr>,
           \<lparr>response_error = None,
             response_file = [(''diagnostics/Report.msg'',
               ''# This file was generated. DO NOT EDIT!'' @ [CHR 0x0A, CHR 0x0A] @
               ''# Report'' @ [CHR 0x0A] @
               ''uint8 status # Status'' @ [CHR 0x0A] @
               ''uint8 previous # Status'' @ [CHR 0x0A] @ [CHR 0x0A] @
               ''# Status'' @ [CHR 0x0A] @
               ''uint8 OK=0'' @ [CHR 0x0A] @
               ''uint8 ERR=1'' @ [CHR 0x0A])]\<rparr>)"
    by code_simp
  have b: "file_enum_type report_file = []"
    by (simp add: report_file_def)
  have c: "\<lparr>request_proto_file = [report_file\<lparr>file_enum_type := [status_enum]\<rparr>]\<rparr> \<noteq>
           \<lparr>request_proto_file = [report_file]\<rparr>"
    by (simp add: report_file_def)
  from a b c show ?thesis by blast
qed

subsection \<open>Forward path: the loop of generate\_proto\<close>

lemma gen_line_message:
  "st_message (gen_line package msg_name st l) =
     st_message st @ line_text package msg_name (st_fieldnumber st) l"
  by (cases l) (simp_all add: line_text_def)

lemma gen_line_fieldnumber:
  "st_fieldnumber (gen_line package msg_name st l) =
     st_fieldnumber st + (if is_field l then 1 else 0)"
  by (cases l) simp_all

lemma foldl_gen_line_fieldnumber:
  "st_fieldnumber (foldl (gen_line package msg_name) st ls) =
     st_fieldnumber st + int (length (filter is_field ls))"
  by (induction ls arbitrary: st) (simp_all add: gen_line_fieldnumber)

lemma upt_0_Suc_Cons: "[0..<Suc n] = 0 # map Suc [0..<n]"
  by (simp add: upt_conv_Cons map_Suc_upt del: upt_Suc)

lemma foldl_gen_line_message:
  "st_message (foldl (gen_line package msg_name) st ls) =
     st_message st @
     concat (map (\<lambda>i. line_text package msg_name
                         (st_fieldnumber st + int (length (filter is_field (take i ls)))) (ls ! i))
               [0..<length ls])"
proof (induction ls arbitrary: st)
  case Nil
  then show ?case by simp
next
  case (Cons l ls)
  show ?case
    by (simp add: Cons.IH gen_line_message gen_line_fieldnumber upt_0_Suc_Cons comp_def
        add.assoc del: upt_Suc)
qed

lemma field_counters:
  "map (\<lambda>i. n + int (length (filter is_field (take i ls))))
     (filter (\<lambda>i. is_field (ls ! i)) [0..<length ls]) =
   map (\<lambda>k. n + int k) [0..<length (filter is_field ls)]"
proof (induction ls arbitrary: n)
  case Nil
  then show ?case by simp
next
  case (Cons l ls)
  show ?case
  proof (cases "is_field l")
    case True
    with Cons.IH [of "n + 1"] show ?thesis
      by (simp add: upt_0_Suc_Cons filter_map comp_def add.assoc del: upt_Suc)
  next
    case False
    with Cons.IH [of n] show ?thesis
      by (simp add: upt_0_Suc_Cons filter_map comp_def del: upt_Suc)
  qed
qed

lemma foldl_append_concat: "foldl (\<lambda>acc i. acc @ f i) a xs = a @ concat (map f xs)"
  by (induction xs arbitrary: a) simp_all

lemma generate_proto_text:
  "generate_proto elems doc msg_name package =
     ''// This file was generated. DO NOT EDIT!\<newline>\<newline>syntax = '' @ [CHR 0x22] @ ''proto3'' @
       [CHR 0x22] @ '';\<newline>'' @
     (if package \<noteq> [] then ''\<newline>package '' @ package @ '';\<newline>'' else []) @
     (if st_imports (gen_lines package msg_name doc) \<noteq> {}
      then ''\<newline>'' @ concat (map (\<lambda>i. ''import '' @ [CHR 0x22] @ i @ ''.proto'' @ [CHR 0x22] @ '';\<newline>'')
                            (elems (st_imports (gen_lines package msg_name doc))))
      else []) @
     ''\<newline>'' @ st_message (gen_lines package msg_name doc) @ ''}''"
  by (simp add: generate_proto_def Let_def foldl_append_concat)

lemma gen_lines_message:
  "st_message (gen_lines package msg_name doc) =
     ''message '' @ msg_name @ '' {\<newline>'' @
     concat (map (\<lambda>i. line_text package msg_name
                         (1 + int (length (filter is_field (take i doc)))) (doc ! i))
               [0..<length doc])"
  unfolding gen_lines_def foldl_gen_line_message by simp

lemma gen_lines_append:
  "gen_lines package msg_name (xs @ ys) =
     foldl (gen_line package msg_name) (gen_lines package msg_name xs) ys"
  by (simp add: gen_lines_def)

lemma foldl_gen_line_imports:
  "st_imports st = st_imports st' \<Longrightarrow>
   st_imports (foldl (gen_line package msg_name) st ls) =
   st_imports (foldl (gen_line package msg_name) st' ls)"
proof (induction ls arbitrary: st st')
  case Nil
  then show ?case by simp
next
  case (Cons l ls)
  from Cons.prems have
    "st_imports (gen_line package msg_name st l) = st_imports (gen_line package msg_name st' l)"
    by (cases l) simp_all
  then have "st_imports (foldl (gen_line package msg_name) (gen_line package msg_name st l) ls) =
             st_imports (foldl (gen_line package msg_name) (gen_line package msg_name st' l) ls)"
    by (rule Cons.IH)
  then show ?case
    by simp
qed

lemma foldl_gen_line_tail:
  "st_fieldnumber st = st_fieldnumber st' \<Longrightarrow>
   \<exists>tail. st_message (foldl (gen_line package msg_name) st ls) = st_message st @ tail \<and>
          st_message (foldl (gen_line package msg_name) st' ls) = st_message st' @ tail"
  by (simp add: foldl_gen_line_message)

lemma code_digit_char: "d < 10 \<Longrightarrow> code (digit_char d) - 48 = d"
  by (simp add: code_def digit_char_def)

lemma str_nat_value: "foldl (\<lambda>a c. 10 * a + (code c - 48)) 0 (str_nat n) = n"
proof (induction n rule: str_nat.induct)
  case (1 n)
  show ?case
  proof (cases "n < 10")
    case True
    then show ?thesis
      by (subst str_nat.simps) (simp add: code_digit_char)
  next
    case False
    with 1 have "foldl (\<lambda>a c. 10 * a + (code c - 48)) 0 (str_nat (n div 10)) = n div 10"
      by simp
    with False show ?thesis
      by (subst str_nat.simps) (simp add: code_digit_char)
  qed
qed

lemma str_int_value: "foldl (\<lambda>a c. 10 * a + (code c - 48)) 0 (str_int (int k)) = k"
  by (simp add: str_int_def str_nat_value)

lemma field_text_line:
  "field_text p n =
     ''  '' @ (if type_is_array (params_type p) then ''repeated '' else []) @
     field_typename (params_type p) @ '' '' @ params_name p @ '' = '' @ str_int n @ '';'' @
     (case type_arraybound (params_type p) of
        None \<Rightarrow> if params_comment p \<noteq> [] then '' // '' @ params_comment p else []
      | Some bound \<Rightarrow>
          if bound \<noteq> [] then '' // ['' @ bound @ ''] '' @ params_comment p
          else if params_comment p \<noteq> [] then '' // '' @ params_comment p else []) @
     ''\<newline>''"
  by (simp add: field_text_def INDENT_def Let_def split: option.splits)

subsection \<open>Forward path: the claims\<close>

text \<open>
  C1. The text of \<open>generate_proto\<close> ends with the message block, and the block is the
  opening line followed by the texts of the document's items in document order, each
  rendered at the counter 1 plus the number of fields before it: a comment as its comment
  line, an empty line as a blank line, a constant as its comment-only line, a field as the
  line that carries, between \<open> = \<close> and the semicolon, the decimal numeral of the counter.
  The counters at the fields are 1, 2, ..., F in document order, F being the number of
  fields, and only a field moves the counter (by one). The numeral of a counter is read
  back, digit by digit, as the counter.
\<close>

theorem generate_proto_order_and_numbering:
  "generate_proto elems doc msg_name package =
     ''// This file was generated. DO NOT EDIT!\<newline>\<newline>syntax = '' @ [CHR 0x22] @ ''proto3'' @
       [CHR 0x22] @ '';\<newline>'' @
     (if package \<noteq> [] then ''\<newline>package '' @ package @ '';\<newline>'' else []) @
     (if st_imports (gen_lines package msg_name doc) \<noteq> {}
      then ''\<newline>'' @ concat (map (\<lambda>i. ''import '' @ [CHR 0x22] @ i @ ''.proto'' @ [CHR 0x22] @ '';\<newline>'')
                            (elems (st_imports (gen_lines package msg_name doc))))
      else []) @
     ''\<newline>'' @ ''message '' @ msg_name @ '' {\<newline>'' @
     concat (map (\<lambda>i. line_text package msg_name
                         (1 + int (length (filter is_field (take i doc)))) (doc ! i))
               [0..<length doc]) @
     ''}''
   \<and> (\<forall>n c. line_text package msg_name n (CommentLine c) = ''  // '' @ c @ ''\<newline>'')
   \<and> (\<forall>n. line_text package msg_name n EmptyLine = ''\<newline>'')
   \<and> (\<forall>n p. line_text package msg_name n (ConstantLine p) = constant_text p)
   \<and> (\<forall>n p. line_text package msg_name n (FieldLine p) = field_text p n)
   \<and> (\<forall>n p. line_text package msg_name n (FieldLine p) =
         ''  '' @ (if type_is_array (params_type p) then ''repeated '' else []) @
         field_typename (params_type p) @ '' '' @ params_name p @ '' = '' @ str_int n @ '';'' @
         (case type_arraybound (params_type p) of
            None \<Rightarrow> if params_comment p \<noteq> [] then '' // '' @ params_comment p else []
          | Some bound \<Rightarrow>
              if bound \<noteq> [] then '' // ['' @ bound @ ''] '' @ params_comment p
              else if params_comment p \<noteq> [] then '' // '' @ params_comment p else []) @
         ''\<newline>'')
   \<and> (\<forall>k. foldl (\<lambda>a c. 10 * a + (code c - 48)) 0 (str_int (int k)) = k)
   \<and> map (\<lambda>i. 1 + int (length (filter is_field (take i doc))))
         (filter (\<lambda>i. is_field (doc ! i)) [0..<length doc]) =
       map int [1..<Suc (length (filter is_field doc))]
   \<and> st_fieldnumber (gen_lines package msg_name doc) = 1 + int (length (filter is_field doc))
   \<and> (\<forall>st l. st_fieldnumber (gen_line package msg_name st l) =
               st_fieldnumber st + (if is_field l then 1 else 0))"
proof -
  have numbers: "map (\<lambda>i. 1 + int (length (filter is_field (take i doc))))
         (filter (\<lambda>i. is_field (doc ! i)) [0..<length doc]) =
       map int [1..<Suc (length (filter is_field doc))]"
  proof -
    have "map int [1..<Suc (length (filter is_field doc))] =
          map int (map Suc [0..<length (filter is_field doc)])"
      by (simp only: map_Suc_upt One_nat_def)
    also have "\<dots> = map (\<lambda>k. 1 + int k) [0..<length (filter is_field doc)]"
      by (simp add: comp_def)
    finally show ?thesis
      by (simp only: field_counters)
  qed
  have counter: "st_fieldnumber (gen_lines package msg_name doc) =
                   1 + int (length (filter is_field doc))"
    by (simp add: gen_lines_def foldl_gen_line_fieldnumber)
  have texts: "(\<forall>n c. line_text package msg_name n (CommentLine c) = ''  // '' @ c @ ''\<newline>'')"
    "(\<forall>n. line_text package msg_name n EmptyLine = ''\<newline>'')"
    "(\<forall>n p. line_text package msg_name n (ConstantLine p) = constant_text p)"
    "(\<forall>n p. line_text package msg_name n (FieldLine p) = field_text p n)"
    by (simp_all add: line_text_def INDENT_def)
  have field: "\<forall>n p. line_text package msg_name n (FieldLine p) =
         ''  '' @ (if type_is_array (params_type p) then ''repeated '' else []) @
         field_typename (params_type p) @ '' '' @ params_name p @ '' = '' @ str_int n @ '';'' @
         (case type_arraybound (params_type p) of
            None \<Rightarrow> if params_comment p \<noteq> [] then '' // '' @ params_comment p else []
          | Some bound \<Rightarrow>
              if bound \<noteq> [] then '' // ['' @ bound @ ''] '' @ params_comment p
              else if params_comment p \<noteq> [] then '' // '' @ params_comment p else []) @
         ''\<newline>''"
    by (simp only: texts(4) field_text_line) simp
  have numeral: "\<forall>k. foldl (\<lambda>a c. 10 * a + (code c - 48)) 0 (str_int (int k)) = k"
    by (simp only: str_int_value) simp
  have whole: "generate_proto elems doc msg_name package =
     ''// This file was generated. DO NOT EDIT!\<newline>\<newline>syntax = '' @ [CHR 0x22] @ ''proto3'' @
       [CHR 0x22] @ '';\<newline>'' @
     (if package \<noteq> [] then ''\<newline>package '' @ package @ '';\<newline>'' else []) @
     (if st_imports (gen_lines package msg_name doc) \<noteq> {}
      then ''\<newline>'' @ concat (map (\<lambda>i. ''import '' @ [CHR 0x22] @ i @ ''.proto'' @ [CHR 0x22] @ '';\<newline>'')
                            (elems (st_imports (gen_lines package msg_name doc))))
      else []) @
     ''\<newline>'' @ ''message '' @ msg_name @ '' {\<newline>'' @
     concat (map (\<lambda>i. line_text package msg_name
                         (1 + int (length (filter is_field (take i doc)))) (doc ! i))
               [0..<length doc]) @
     ''}''"
    by (subst generate_proto_text, subst gen_lines_message) simp
  from whole texts field numeral numbers counter gen_line_fieldnumber show ?thesis
    by blast
qed

theorem generate_proto_order_and_numbering_witness:
  "generate_proto no_imports
     [CommentLine ''a point'', EmptyLine, FieldLine x_field, ConstantLine red_constant,
      FieldLine y_field, FieldLine data_field, FieldLine label_field] ''Point'' ''geometry'' =
     ''// This file was generated. DO NOT EDIT!\<newline>\<newline>syntax = '' @ [CHR 0x22] @ ''proto3'' @
       [CHR 0x22] @ '';\<newline>'' @
     ''\<newline>package geometry;\<newline>'' @
     ''\<newline>message Point {\<newline>'' @
     ''  // a point\<newline>'' @
     ''\<newline>'' @
     ''  double x = 1; // x coordinate\<newline>'' @
     ''  //   RED = 0; // red color\<newline>'' @
     ''  float y = 2;\<newline>'' @
     ''  repeated int32 data = 3; // [10] \<newline>'' @
     ''  string label = 4;\<newline>'' @
     ''}''
   \<and> line_text ''geometry'' ''Point'' 2 (FieldLine y_field) = ''  float y = 2;\<newline>''
   \<and> line_text ''geometry'' ''Point'' 4 (FieldLine label_field) = ''  string label = 4;\<newline>''
   \<and> st_fieldnumber (gen_lines ''geometry'' ''Point''
        [CommentLine ''a point'', EmptyLine, FieldLine x_field, ConstantLine red_constant,
         FieldLine y_field, FieldLine data_field, FieldLine label_field]) = 5"
proof -
  have out: "generate_proto no_imports
     [CommentLine ''a point'', EmptyLine, FieldLine x_field, ConstantLine red_constant,
      FieldLine y_field, FieldLine data_field, FieldLine label_field] ''Point'' ''geometry'' =
     ''// This file was generated. DO NOT EDIT!\<newline>\<newline>syntax = '' @ [CHR 0x22] @ ''proto3'' @
       [CHR 0x22] @ '';\<newline>'' @
     ''\<newline>package geometry;\<newline>'' @
     ''\<newline>message Point {\<newline>'' @
     ''  // a point\<newline>'' @
     ''\<newline>'' @
     ''  double x = 1; // x coordinate\<newline>'' @
     ''  //   RED = 0; // red color\<newline>'' @
     ''  float y = 2;\<newline>'' @
     ''  repeated int32 data = 3; // [10] \<newline>'' @
     ''  string label = 4;\<newline>'' @
     ''}''"
    by code_simp
  note t = generate_proto_order_and_numbering [of no_imports
      "[CommentLine ''a point'', EmptyLine, FieldLine x_field, ConstantLine red_constant,
        FieldLine y_field, FieldLine data_field, FieldLine label_field]" "''Point''" "''geometry''"]
  have two: "str_int 2 = ''2''" and four: "str_int 4 = ''4''"
    by code_simp+
  have ty: "field_typename (params_type y_field) = ''float''"
    and tl: "field_typename (params_type label_field) = ''string''"
    by code_simp+
  from t have "line_text ''geometry'' ''Point'' 2 (FieldLine y_field) =
         ''  '' @ (if type_is_array (params_type y_field) then ''repeated '' else []) @
         field_typename (params_type y_field) @ '' '' @ params_name y_field @ '' = '' @
         str_int 2 @ '';'' @
         (case type_arraybound (params_type y_field) of
            None \<Rightarrow> if params_comment y_field \<noteq> [] then '' // '' @ params_comment y_field else []
          | Some bound \<Rightarrow>
              if bound \<noteq> [] then '' // ['' @ bound @ ''] '' @ params_comment y_field
              else if params_comment y_field \<noteq> [] then '' // '' @ params_comment y_field
                   else []) @
         ''\<newline>''"
    by blast
  then have y: "line_text ''geometry'' ''Point'' 2 (FieldLine y_field) = ''  float y = 2;\<newline>''"
    unfolding ty two by (simp add: y_field_def plain_type_def)
  from t have "line_text ''geometry'' ''Point'' 4 (FieldLine label_field) =
         ''  '' @ (if type_is_array (params_type label_field) then ''repeated '' else []) @
         field_typename (params_type label_field) @ '' '' @ params_name label_field @ '' = '' @
         str_int 4 @ '';'' @
         (case type_arraybound (params_type label_field) of
            None \<Rightarrow> if params_comment label_field \<noteq> [] then '' // '' @ params_comment label_field
                    else []
          | Some bound \<Rightarrow>
              if bound \<noteq> [] then '' // ['' @ bound @ ''] '' @ params_comment label_field
              else if params_comment label_field \<noteq> [] then '' // '' @ params_comment label_field
                   else []) @
         ''\<newline>''"
    by blast
  then have l: "line_text ''geometry'' ''Point'' 4 (FieldLine label_field) =
                  ''  string label = 4;\<newline>''"
    unfolding tl four by (simp add: label_field_def plain_type_def)
  from t
  have "st_fieldnumber (gen_lines ''geometry'' ''Point''
        [CommentLine ''a point'', EmptyLine, FieldLine x_field, ConstantLine red_constant,
         FieldLine y_field, FieldLine data_field, FieldLine label_field]) =
        1 + int (length (filter is_field
          [CommentLine ''a point'', EmptyLine, FieldLine x_field, ConstantLine red_constant,
           FieldLine y_field, FieldLine data_field, FieldLine label_field]))"
    by blast
  then have "st_fieldnumber (gen_lines ''geometry'' ''Point''
        [CommentLine ''a point'', EmptyLine, FieldLine x_field, ConstantLine red_constant,
         FieldLine y_field, FieldLine data_field, FieldLine label_field]) = 5"
    by simp
  with out y l show ?thesis by blast
qed

text \<open>
  C7, as amended. A constant is emitted as the comment-only line made of the indentation,
  \<open>// \<close>, the indentation again and \<open>NAME = value;\<close>, followed by \<open> // \<close> and the comment
  where the constant has one; the turn leaves the counter and the imports as they are.
  The message text of a document with a constant is the text of the document without it
  with that one line put in at the constant's place, so every field after the constant
  has the number it has without the constant. The line \<open>uint8 RED = 0 # red color\<close> parses
  to a constant whose output line is \<open>//   RED = 0; // red color\<close> behind the indentation.
\<close>

theorem constant_is_comment_only:
  "gen_line package msg_name st (ConstantLine p) =
     st\<lparr>st_message := st_message st @ ''  //   '' @ params_name p @ '' = '' @ params_value p @
          '';'' @ (if params_comment p \<noteq> [] then '' // '' @ params_comment p else []) @
          ''\<newline>''\<rparr>
   \<and> st_fieldnumber (gen_lines package msg_name (before @ ConstantLine p # after)) =
       st_fieldnumber (gen_lines package msg_name (before @ after))
   \<and> (\<exists>tail.
         st_message (gen_lines package msg_name (before @ after)) =
           st_message (gen_lines package msg_name before) @ tail \<and>
         st_message (gen_lines package msg_name (before @ ConstantLine p # after)) =
           st_message (gen_lines package msg_name before) @ constant_text p @ tail)
   \<and> parse_msg ''uint8 RED = 0 # red color\<newline>'' = Some [ConstantLine red_constant]
   \<and> constant_text red_constant = ''  //   RED = 0; // red color\<newline>''"
proof -
  have step: "gen_line package msg_name st (ConstantLine p) =
     st\<lparr>st_message := st_message st @ ''  //   '' @ params_name p @ '' = '' @ params_value p @
          '';'' @ (if params_comment p \<noteq> [] then '' // '' @ params_comment p else []) @
          ''\<newline>''\<rparr>"
    by (simp add: constant_text_def INDENT_def Let_def)
  have counter: "st_fieldnumber (gen_lines package msg_name (before @ ConstantLine p # after)) =
       st_fieldnumber (gen_lines package msg_name (before @ after))"
    by (simp add: gen_lines_def foldl_gen_line_fieldnumber)
  have "st_fieldnumber (gen_lines package msg_name before) =
        st_fieldnumber (gen_line package msg_name (gen_lines package msg_name before)
                          (ConstantLine p))"
    by simp
  from foldl_gen_line_tail [OF this, of package msg_name after]
  obtain tail where
    t1: "st_message (foldl (gen_line package msg_name) (gen_lines package msg_name before) after) =
           st_message (gen_lines package msg_name before) @ tail"
    and t2: "st_message (foldl (gen_line package msg_name)
               (gen_line package msg_name (gen_lines package msg_name before) (ConstantLine p))
               after) =
           st_message (gen_line package msg_name (gen_lines package msg_name before)
                         (ConstantLine p)) @ tail"
    by blast
  have texts: "\<exists>tail.
         st_message (gen_lines package msg_name (before @ after)) =
           st_message (gen_lines package msg_name before) @ tail \<and>
         st_message (gen_lines package msg_name (before @ ConstantLine p # after)) =
           st_message (gen_lines package msg_name before) @ constant_text p @ tail"
  proof (intro exI conjI)
    show "st_message (gen_lines package msg_name (before @ after)) =
           st_message (gen_lines package msg_name before) @ tail"
      by (simp only: gen_lines_append t1)
    have e: "gen_lines package msg_name (before @ ConstantLine p # after) =
          foldl (gen_line package msg_name)
               (gen_line package msg_name (gen_lines package msg_name before) (ConstantLine p))
               after"
      by (simp add: gen_lines_def del: gen_line.simps)
    have c: "st_message (gen_line package msg_name (gen_lines package msg_name before)
                          (ConstantLine p)) =
             st_message (gen_lines package msg_name before) @ constant_text p"
      by simp
    have "st_message (gen_lines package msg_name (before @ ConstantLine p # after)) =
          st_message (gen_line package msg_name (gen_lines package msg_name before)
                        (ConstantLine p)) @ tail"
      by (simp only: e t2)
    then show "st_message (gen_lines package msg_name (before @ ConstantLine p # after)) =
           st_message (gen_lines package msg_name before) @ constant_text p @ tail"
      by (simp only: c append_assoc)
  qed
  have parse: "parse_msg ''uint8 RED = 0 # red color\<newline>'' = Some [ConstantLine red_constant]"
    by code_simp
  have red: "constant_text red_constant = ''  //   RED = 0; // red color\<newline>''"
    by code_simp
  from step counter texts parse red show ?thesis
    by blast
qed

theorem constant_line_not_as_claimed:
  "parse_msg ''uint8 RED = 0 # red color\<newline>'' = Some [ConstantLine red_constant]
   \<and> generate_proto no_imports [ConstantLine red_constant] ''Color'' [] =
       ''// This file was generated. DO NOT EDIT!\<newline>\<newline>syntax = '' @ [CHR 0x22] @ ''proto3'' @
         [CHR 0x22] @ '';\<newline>'' @
       ''\<newline>message Color {\<newline>'' @
       ''  //   RED = 0; // red color\<newline>'' @
       ''}''
   \<and> map strip (split CHR 0x0A (generate_proto no_imports [ConstantLine red_constant] ''Color'' [])) =
       [''// This file was generated. DO NOT EDIT!'', [],
        ''syntax = '' @ [CHR 0x22] @ ''proto3'' @ [CHR 0x22] @ '';'', [],
        ''message Color {'', ''//   RED = 0; // red color'', ''}'']
   \<and> ''// RED = 0; // red color'' \<notin>
       set (map strip (split CHR 0x0A
              (generate_proto no_imports [ConstantLine red_constant] ''Color'' [])))"
proof -
  have parse: "parse_msg ''uint8 RED = 0 # red color\<newline>'' = Some [ConstantLine red_constant]"
    by code_simp
  have out: "generate_proto no_imports [ConstantLine red_constant] ''Color'' [] =
       ''// This file was generated. DO NOT EDIT!\<newline>\<newline>syntax = '' @ [CHR 0x22] @ ''proto3'' @
         [CHR 0x22] @ '';\<newline>'' @
       ''\<newline>message Color {\<newline>'' @
       ''  //   RED = 0; // red color\<newline>'' @
       ''}''"
    by code_simp
  have ls: "map strip (split CHR 0x0A
              (generate_proto no_imports [ConstantLine red_constant] ''Color'' [])) =
       [''// This file was generated. DO NOT EDIT!'', [],
        ''syntax = '' @ [CHR 0x22] @ ''proto3'' @ [CHR 0x22] @ '';'', [],
        ''message Color {'', ''//   RED = 0; // red color'', ''}'']"
    by code_simp
  have "''// RED = 0; // red color'' \<notin>
       set (map strip (split CHR 0x0A
              (generate_proto no_imports [ConstantLine red_constant] ''Color'' [])))"
    unfolding ls by simp
  with parse out ls show ?thesis
    by blast
qed

text \<open>
  C8. A field with the array modifier is emitted with the label \<open>repeated\<close> before the mapped
  type, which is what the forward table gives for the type name behind its package, and a
  bound that is present and not empty goes, in brackets, before the comment text of the
  trailing comment. The line \<open>int32[10] data\<close> parses to such a field; as the only item of
  a document in the empty package its output line is \<open>repeated int32 data = 1; // [10]\<close>
  behind the indentation and before the blank that separates the bound from the comment
  text, which is empty. The line \<open>float64[] values\<close> gives \<open>repeated double values = 1;\<close>,
  and \<open>geometry_msgs/Point[<=5] points # way points\<close> gives
  \<open>repeated geometry_msgs.Point points = 1; // [<=5] way points\<close>.
\<close>

theorem array_field_is_repeated:
  "(type_is_array (params_type p) \<longrightarrow>
      field_text p n =
        ''  repeated '' @ field_typename (params_type p) @ '' '' @ params_name p @ '' = '' @
        str_int n @ '';'' @
        (case type_arraybound (params_type p) of
           None \<Rightarrow> if params_comment p \<noteq> [] then '' // '' @ params_comment p else []
         | Some bound \<Rightarrow>
             if bound \<noteq> [] then '' // ['' @ bound @ ''] '' @ params_comment p
             else if params_comment p \<noteq> [] then '' // '' @ params_comment p else []) @
        ''\<newline>'')
   \<and> field_typename (params_type p) =
       msg2proto_map_type
         (if type_package (params_type p) \<noteq> []
          then type_package (params_type p) @ ''/'' @ type_typename (params_type p)
          else type_typename (params_type p))
   \<and> st_message (gen_line package msg_name st (FieldLine p)) =
       st_message st @ field_text p (st_fieldnumber st)
   \<and> parse_msg ''int32[10] data\<newline>'' = Some [FieldLine data_field]
   \<and> generate_proto elems [FieldLine data_field] msg_name [] =
       ''// This file was generated. DO NOT EDIT!\<newline>\<newline>syntax = '' @ [CHR 0x22] @ ''proto3'' @
         [CHR 0x22] @ '';\<newline>'' @
       ''\<newline>message '' @ msg_name @ '' {\<newline>'' @
       ''  repeated int32 data = 1; // [10] \<newline>'' @
       ''}''
   \<and> ''  repeated int32 data = 1; // [10] \<newline>'' =
       INDENT @ ''repeated int32 data = 1; // [10]'' @ '' '' @ ''\<newline>''
   \<and> strip ''  repeated int32 data = 1; // [10] '' = ''repeated int32 data = 1; // [10]''
   \<and> parse_msg ''float64[] values\<newline>'' = Some [FieldLine values_field]
   \<and> generate_proto elems [FieldLine values_field] msg_name [] =
       ''// This file was generated. DO NOT EDIT!\<newline>\<newline>syntax = '' @ [CHR 0x22] @ ''proto3'' @
         [CHR 0x22] @ '';\<newline>'' @
       ''\<newline>message '' @ msg_name @ '' {\<newline>'' @
       ''  repeated double values = 1;\<newline>'' @
       ''}''
   \<and> parse_msg ''geometry_msgs/Point[<=5] points # way points\<newline>'' =
       Some [FieldLine points_field]
   \<and> field_text points_field 1 =
       ''  repeated geometry_msgs.Point points = 1; // [<=5] way points\<newline>''"
proof -
  have general: "type_is_array (params_type p) \<longrightarrow>
      field_text p n =
        ''  repeated '' @ field_typename (params_type p) @ '' '' @ params_name p @ '' = '' @
        str_int n @ '';'' @
        (case type_arraybound (params_type p) of
           None \<Rightarrow> if params_comment p \<noteq> [] then '' // '' @ params_comment p else []
         | Some bound \<Rightarrow>
             if bound \<noteq> [] then '' // ['' @ bound @ ''] '' @ params_comment p
             else if params_comment p \<noteq> [] then '' // '' @ params_comment p else []) @
        ''\<newline>''"
    by (simp add: field_text_def INDENT_def Let_def split: option.splits)
  have mapped: "field_typename (params_type p) =
       msg2proto_map_type
         (if type_package (params_type p) \<noteq> []
          then type_package (params_type p) @ ''/'' @ type_typename (params_type p)
          else type_typename (params_type p))"
    by (simp add: field_typename_def Let_def)
  have step: "st_message (gen_line package msg_name st (FieldLine p)) =
       st_message st @ field_text p (st_fieldnumber st)"
    by simp
  have parse: "parse_msg ''int32[10] data\<newline>'' = Some [FieldLine data_field]"
    by code_simp
  have data: "field_text data_field 1 = ''  repeated int32 data = 1; // [10] \<newline>''"
    by code_simp
  have noimp: "st_imports (gen_lines [] msg_name [FieldLine data_field]) = {}"
    by (simp add: gen_lines_def field_imports_def data_field_def)
  have message: "st_message (gen_lines [] msg_name [FieldLine data_field]) =
                   ''message '' @ msg_name @ '' {\<newline>'' @ field_text data_field 1"
    by (simp add: gen_lines_def)
  have out: "generate_proto elems [FieldLine data_field] msg_name [] =
       ''// This file was generated. DO NOT EDIT!\<newline>\<newline>syntax = '' @ [CHR 0x22] @ ''proto3'' @
         [CHR 0x22] @ '';\<newline>'' @
       ''\<newline>message '' @ msg_name @ '' {\<newline>'' @
       ''  repeated int32 data = 1; // [10] \<newline>'' @
       ''}''"
    by (subst generate_proto_text) (simp add: noimp message data)
  have parts: "''  repeated int32 data = 1; // [10] \<newline>'' =
       INDENT @ ''repeated int32 data = 1; // [10]'' @ '' '' @ ''\<newline>''"
    by (simp add: INDENT_def)
  have stripped: "strip ''  repeated int32 data = 1; // [10] '' = ''repeated int32 data = 1; // [10]''"
    by code_simp
  have parse_values: "parse_msg ''float64[] values\<newline>'' = Some [FieldLine values_field]"
    by code_simp
  have text_values: "field_text values_field 1 = ''  repeated double values = 1;\<newline>''"
    by code_simp
  have noimp_values: "st_imports (gen_lines [] msg_name [FieldLine values_field]) = {}"
    by (simp add: gen_lines_def field_imports_def values_field_def)
  have message_values: "st_message (gen_lines [] msg_name [FieldLine values_field]) =
                   ''message '' @ msg_name @ '' {\<newline>'' @ field_text values_field 1"
    by (simp add: gen_lines_def)
  have out_values: "generate_proto elems [FieldLine values_field] msg_name [] =
       ''// This file was generated. DO NOT EDIT!\<newline>\<newline>syntax = '' @ [CHR 0x22] @ ''proto3'' @
         [CHR 0x22] @ '';\<newline>'' @
       ''\<newline>message '' @ msg_name @ '' {\<newline>'' @
       ''  repeated double values = 1;\<newline>'' @
       ''}''"
    by (subst generate_proto_text) (simp add: noimp_values message_values text_values)
  have parse_points: "parse_msg ''geometry_msgs/Point[<=5] points # way points\<newline>'' =
       Some [FieldLine points_field]"
    by code_simp
  have points: "field_text points_field 1 =
       ''  repeated geometry_msgs.Point points = 1; // [<=5] way points\<newline>''"
    by code_simp
  from general mapped step parse out parts stripped parse_values out_values parse_points points
  show ?thesis
    by blast
qed

theorem array_field_is_repeated_witness:
  "type_is_array (params_type values_field)
   \<and> field_typename (params_type values_field) = ''double''
   \<and> field_text values_field 1 = ''  repeated double values = 1;\<newline>''
   \<and> type_is_array (params_type data_field)
   \<and> field_text data_field 1 = ''  repeated int32 data = 1; // [10] \<newline>''
   \<and> parse_msg ''int32[10] data\<newline>'' = Some [FieldLine data_field]
   \<and> split CHR 0x0A (generate_proto no_imports [FieldLine data_field] ''Data'' []) =
       [''// This file was generated. DO NOT EDIT!'', [],
        ''syntax = '' @ [CHR 0x22] @ ''proto3'' @ [CHR 0x22] @ '';'', [],
        ''message Data {'', ''  repeated int32 data = 1; // [10] '', ''}'']
   \<and> strip ''  repeated int32 data = 1; // [10] '' = ''repeated int32 data = 1; // [10]''"
proof -
  have h: "type_is_array (params_type data_field)"
    by (simp add: data_field_def)
  have hv: "type_is_array (params_type values_field)"
    by (simp add: values_field_def)
  have m: "msg2proto_map_type ''float64'' = ''double''" "msg2proto_map_type ''int32'' = ''int32''"
    by code_simp+
  have s: "str_int 1 = ''1''"
    by code_simp
  note t = array_field_is_repeated [of data_field 1 "[]" "''Data''" st no_imports for st]
  note v = array_field_is_repeated [of values_field 1 "[]" "''Data''" st no_imports for st]
  from v have "field_typename (params_type values_field) =
       msg2proto_map_type
         (if type_package (params_type values_field) \<noteq> []
          then type_package (params_type values_field) @ ''/'' @
               type_typename (params_type values_field)
          else type_typename (params_type values_field))"
    by blast
  then have fv: "field_typename (params_type values_field) = ''double''"
    by (simp add: values_field_def m)
  from t have "field_typename (params_type data_field) =
       msg2proto_map_type
         (if type_package (params_type data_field) \<noteq> []
          then type_package (params_type data_field) @ ''/'' @
               type_typename (params_type data_field)
          else type_typename (params_type data_field))"
    by blast
  then have f: "field_typename (params_type data_field) = ''int32''"
    by (simp add: data_field_def m)
  from v hv have "field_text values_field 1 =
        ''  repeated '' @ field_typename (params_type values_field) @ '' '' @
        params_name values_field @ '' = '' @ str_int 1 @ '';'' @
        (case type_arraybound (params_type values_field) of
           None \<Rightarrow> if params_comment values_field \<noteq> [] then '' // '' @ params_comment values_field
                   else []
         | Some bound \<Rightarrow>
             if bound \<noteq> [] then '' // ['' @ bound @ ''] '' @ params_comment values_field
             else if params_comment values_field \<noteq> [] then '' // '' @ params_comment values_field
                  else []) @
        ''\<newline>''"
    by blast
  then have dv: "field_text values_field 1 = ''  repeated double values = 1;\<newline>''"
    unfolding fv s by (simp add: values_field_def)
  from t h have "field_text data_field 1 =
        ''  repeated '' @ field_typename (params_type data_field) @ '' '' @
        params_name data_field @ '' = '' @ str_int 1 @ '';'' @
        (case type_arraybound (params_type data_field) of
           None \<Rightarrow> if params_comment data_field \<noteq> [] then '' // '' @ params_comment data_field
                   else []
         | Some bound \<Rightarrow>
             if bound \<noteq> [] then '' // ['' @ bound @ ''] '' @ params_comment data_field
             else if params_comment data_field \<noteq> [] then '' // '' @ params_comment data_field
                  else []) @
        ''\<newline>''"
    by blast
  then have d: "field_text data_field 1 = ''  repeated int32 data = 1; // [10] \<newline>''"
    unfolding f s by (simp add: data_field_def)
  from t have p: "parse_msg ''int32[10] data\<newline>'' = Some [FieldLine data_field]"
    and g: "generate_proto no_imports [FieldLine data_field] ''Data'' [] =
       ''// This file was generated. DO NOT EDIT!\<newline>\<newline>syntax = '' @ [CHR 0x22] @ ''proto3'' @
         [CHR 0x22] @ '';\<newline>'' @
       ''\<newline>message '' @ ''Data'' @ '' {\<newline>'' @
       ''  repeated int32 data = 1; // [10] \<newline>'' @
       ''}''"
    and r: "strip ''  repeated int32 data = 1; // [10] '' = ''repeated int32 data = 1; // [10]''"
    by blast+
  have l: "split CHR 0x0A (generate_proto no_imports [FieldLine data_field] ''Data'' []) =
       [''// This file was generated. DO NOT EDIT!'', [],
        ''syntax = '' @ [CHR 0x22] @ ''proto3'' @ [CHR 0x22] @ '';'', [],
        ''message Data {'', ''  repeated int32 data = 1; // [10] '', ''}'']"
    unfolding g by simp
  from hv fv dv h d p l r show ?thesis
    by blast
qed

text \<open>
  C9. A field whose type name, once qualified with its package and mapped, has the name
  of the message being rendered as its last segment adds nothing to the import set: the
  turn of the loop leaves the set as it is, and the imports of a document with such a field
  are the imports of the document without it. (For a name of one segment the current
  package is put in front first, which leaves the last segment as it is.)
\<close>

theorem self_reference_adds_no_import:
  assumes "last (split CHR ''.'' (field_typename (params_type p))) = msg_name"
  shows "st_imports (gen_line package msg_name st (FieldLine p)) = st_imports st
         \<and> st_imports (gen_lines package msg_name (before @ FieldLine p # after)) =
             st_imports (gen_lines package msg_name (before @ after))"
proof -
  have l: "last (package # split CHR ''.'' (field_typename (params_type p))) = msg_name"
    using assms by (simp add: split_not_Nil)
  have same: "field_imports package msg_name (params_type p) imps = imps" for imps
    using assms l by (simp add: field_imports_def Let_def)
  then have step: "st_imports (gen_line package msg_name st (FieldLine p)) = st_imports st" for st
    by simp
  have a: "gen_lines package msg_name (before @ FieldLine p # after) =
        foldl (gen_line package msg_name)
          (gen_line package msg_name (gen_lines package msg_name before) (FieldLine p)) after"
    by (simp add: gen_lines_def del: gen_line.simps)
  have b: "gen_lines package msg_name (before @ after) =
        foldl (gen_line package msg_name) (gen_lines package msg_name before) after"
    by (rule gen_lines_append)
  have "st_imports (foldl (gen_line package msg_name)
          (gen_line package msg_name (gen_lines package msg_name before) (FieldLine p)) after) =
        st_imports (foldl (gen_line package msg_name) (gen_lines package msg_name before) after)"
    by (rule foldl_gen_line_imports) (rule step)
  then have "st_imports (gen_lines package msg_name (before @ FieldLine p # after)) =
             st_imports (gen_lines package msg_name (before @ after))"
    by (simp only: a b)
  with step show ?thesis
    by blast
qed

theorem self_reference_adds_no_import_witness:
  "last (split CHR ''.'' (field_typename (params_type next_field))) = ''Point''
   \<and> type_is_complextype (params_type next_field)
   \<and> st_imports (gen_lines ''geometry'' ''Point''
        ([FieldLine header_line_field] @ FieldLine next_field # [FieldLine x_field])) =
      {''std_msgs/header''}
   \<and> st_imports (gen_lines ''geometry'' ''Point''
        ([FieldLine header_line_field] @ [FieldLine x_field])) =
      {''std_msgs/header''}"
proof -
  have h: "last (split CHR ''.'' (field_typename (params_type next_field))) = ''Point''"
    by code_simp
  have c: "type_is_complextype (params_type next_field)"
    by (simp add: next_field_def)
  have w: "st_imports (gen_lines ''geometry'' ''Point''
        ([FieldLine header_line_field] @ [FieldLine x_field])) = {''std_msgs/header''}"
    by code_simp
  from self_reference_adds_no_import [OF h, of "''geometry''" st "[FieldLine header_line_field]"
      "[FieldLine x_field]" for st]
  have "st_imports (gen_lines ''geometry'' ''Point''
        ([FieldLine header_line_field] @ FieldLine next_field # [FieldLine x_field])) =
        st_imports (gen_lines ''geometry'' ''Point''
        ([FieldLine header_line_field] @ [FieldLine x_field]))"
    by blast
  with h c w show ?thesis
    by simp
qed

subsection \<open>Forward path: every rule moves forward\<close>

text \<open>
  What a rule leaves is a suffix of the text it was given, so the text left after some
  rules of a sequence is a suffix of the text the sequence started on.
\<close>

lemma dropWhile_suffix: "suffix s t \<Longrightarrow> suffix (dropWhile p s) t"
  by (rule suffix_order.trans [OF suffix_dropWhile])

lemma drop_suffix: "suffix s t \<Longrightarrow> suffix (drop k s) t"
  by (rule suffix_order.trans [OF suffix_drop])

lemma SP_rule_suffix: "suffix s t \<Longrightarrow> suffix (SP_rule s) t"
  unfolding SP_rule_def by (rule dropWhile_suffix)

lemma EOL_rule_suffix: "EOL_rule s = Some r \<Longrightarrow> suffix s t \<Longrightarrow> strict_suffix r t"
  by (auto simp: EOL_rule_def split: list.splits if_splits dest: suffix_ConsD')

lemma lit_suffix: "lit l s = Some r \<Longrightarrow> suffix s t \<Longrightarrow> suffix r t"
  by (auto simp: lit_def split: if_splits intro: drop_suffix)

lemma re_plus_suffix: "re_plus p s = Some (v, r) \<Longrightarrow> suffix s t \<Longrightarrow> suffix r t"
  by (auto simp: re_plus_def split: if_splits intro: dropWhile_suffix)

lemma re_first_rest_suffix:
  "re_first_rest p q s = Some (v, r) \<Longrightarrow> suffix s t \<Longrightarrow> suffix r t"
  by (auto simp: re_first_rest_def split: list.splits if_splits
      intro: dropWhile_suffix dest: suffix_ConsD)

lemma text_rule_suffix: "text_rule s = (v, r) \<Longrightarrow> suffix s t \<Longrightarrow> suffix r t"
  by (auto simp: text_rule_def re_star_def intro: dropWhile_suffix)

lemma comment_rule_suffix:
  "comment_rule s = Some (c, r) \<Longrightarrow> suffix s t \<Longrightarrow> suffix r t"
  by (auto simp: comment_rule_def split: option.splits prod.splits
      dest!: re_plus_suffix [where t = t] intro: text_rule_suffix SP_rule_suffix)

lemma optional_comment_suffix:
  "optional_comment s = (c, r) \<Longrightarrow> suffix s t \<Longrightarrow> suffix r t"
  by (auto simp: optional_comment_def split: option.splits dest: comment_rule_suffix)

lemma dropWhile_Cons_suffix:
  "dropWhile p s = c # r \<Longrightarrow> suffix s t \<Longrightarrow> suffix r t"
  using dropWhile_suffix [of s t p] by (auto dest: suffix_ConsD)

lemma quoted_suffix: "quoted q s = Some (v, r) \<Longrightarrow> suffix s t \<Longrightarrow> suffix r t"
proof -
  assume a: "quoted q s = Some (v, r)" and n: "suffix s t"
  define s1 where
    "s1 = drop (length (case s of c # r \<Rightarrow> if is_lower c then [c] else [] | [] \<Rightarrow> [])) s"
  have s1: "suffix s1 t"
    unfolding s1_def using n by (rule drop_suffix)
  from a obtain c u c' where u: "s1 = c # u" and d: "dropWhile (\<lambda>c. c \<noteq> q) u = c' # r"
    by (auto simp: quoted_def Let_def s1_def [symmetric] split: list.splits if_splits)
  from s1 u have "suffix u t"
    by (auto dest: suffix_ConsD)
  with d show ?thesis
    by (rule dropWhile_Cons_suffix)
qed

lemma oneof_cases:
  "oneof a b = Some x \<Longrightarrow> (a = Some x \<Longrightarrow> P) \<Longrightarrow> (a = None \<Longrightarrow> b = Some x \<Longrightarrow> P) \<Longrightarrow> P"
  by (auto simp: oneof_def split: option.splits)

lemma stringval_rule_suffix:
  "stringval_rule s = Some (v, r) \<Longrightarrow> suffix s t \<Longrightarrow> suffix r t"
  unfolding stringval_rule_def by (erule oneof_cases) (auto dest: quoted_suffix)

lemma arrayval_rule_suffix:
  "arrayval_rule s = Some (v, r) \<Longrightarrow> suffix s t \<Longrightarrow> suffix r t"
proof -
  assume a: "arrayval_rule s = Some (v, r)" and n: "suffix s t"
  from a obtain u c' where s: "s = CHR ''['' # u"
    and d: "dropWhile (\<lambda>c. c \<noteq> CHR '']'') u = c' # r"
    by (auto simp: arrayval_rule_def split: list.splits if_splits)
  from n s have "suffix u t"
    by (auto dest: suffix_ConsD)
  with d show ?thesis
    by (rule dropWhile_Cons_suffix)
qed

lemma boolval_rule_suffix:
  "boolval_rule s = Some (v, r) \<Longrightarrow> suffix s t \<Longrightarrow> suffix r t"
  by (auto simp: boolval_rule_def split: if_splits intro: drop_suffix)

lemma numericval_rule_suffix:
  "numericval_rule s = Some (v, r) \<Longrightarrow> suffix s t \<Longrightarrow> suffix r t"
  unfolding numericval_rule_def by (rule re_plus_suffix)

lemma value_rule_suffix:
  "value_rule s = Some (v, r) \<Longrightarrow> suffix s t \<Longrightarrow> suffix r t"
proof -
  assume a: "value_rule s = Some (v, r)" and n: "suffix s t"
  from a obtain v' where
    "oneof (numericval_rule s)
       (oneof (boolval_rule s) (oneof (stringval_rule s) (arrayval_rule s))) = Some (v', r)"
    by (auto simp: value_rule_def)
  then show ?thesis
    using n
    by (elim oneof_cases)
       (auto dest: numericval_rule_suffix boolval_rule_suffix stringval_rule_suffix
          arrayval_rule_suffix)
qed

lemma arraybound_rule_suffix:
  "arraybound_rule s = Some (v, r) \<Longrightarrow> suffix s t \<Longrightarrow> suffix r t"
  by (auto simp: arraybound_rule_def Let_def split: option.splits if_splits
      dest!: re_plus_suffix [where t = t] intro: drop_suffix)

lemma stringbound_rule_suffix:
  "stringbound_rule s = Some (v, r) \<Longrightarrow> suffix s t \<Longrightarrow> suffix r t"
  by (auto simp: stringbound_rule_def split: option.splits
      dest!: lit_suffix [where t = t] re_plus_suffix [where t = t])

lemma complextype_rule_suffix:
  "complextype_rule s = Some (v, r) \<Longrightarrow> suffix s t \<Longrightarrow> suffix r t"
proof -
  assume a: "complextype_rule s = Some (v, r)" and n: "suffix s t"
  define pr where "pr = (case packagename_rule s of
              None \<Rightarrow> ([], s)
            | Some (p, r) \<Rightarrow>
                (case lit ''/'' r of None \<Rightarrow> ([], s) | Some r' \<Rightarrow> (asscalar p, r')))"
  have "suffix (snd pr) t"
    using n
    by (auto simp: pr_def packagename_rule_def split: option.splits
        dest!: re_first_rest_suffix [where t = t] lit_suffix [where t = t])
  moreover from a obtain m where "msgname_rule (snd pr) = Some (m, r)"
    by (auto simp: complextype_rule_def pr_def [symmetric] split: prod.splits option.splits)
  ultimately show ?thesis
    by (auto simp: msgname_rule_def dest: re_first_rest_suffix)
qed

lemma stringtype_rule_suffix:
  "stringtype_rule s = Some (v, r) \<Longrightarrow> suffix s t \<Longrightarrow> suffix r t"
  by (auto simp: stringtype_rule_def split: option.splits
      dest!: lit_suffix [where t = t] stringbound_rule_suffix [where t = t])

lemma primitivetype_rule_suffix:
  "primitivetype_rule s = Some (v, r) \<Longrightarrow> suffix s t \<Longrightarrow> suffix r t"
  by (auto simp: primitivetype_rule_def split: option.splits dest!: re_plus_suffix [where t = t])

lemma basetype_rule_suffix:
  "basetype_rule s = Some (v, r) \<Longrightarrow> suffix s t \<Longrightarrow> suffix r t"
  unfolding basetype_rule_def
  by (elim oneof_cases)
     (auto dest: complextype_rule_suffix stringtype_rule_suffix primitivetype_rule_suffix)

lemma arrayspec_rule_suffix:
  "arrayspec_rule s = Some (v, r) \<Longrightarrow> suffix s t \<Longrightarrow> suffix r t"
  by (auto simp: arrayspec_rule_def split: option.splits prod.splits
      dest!: lit_suffix [where t = t] arraybound_rule_suffix [where t = t])

lemma type_rule_suffix:
  "type_rule s = Some (v, r) \<Longrightarrow> suffix s t \<Longrightarrow> suffix r t"
  by (auto simp: type_rule_def split: option.splits prod.splits
      dest!: basetype_rule_suffix [where t = t] arrayspec_rule_suffix [where t = t])

lemma field_rule_suffix:
  "field_rule s = Some (v, r) \<Longrightarrow> suffix s t \<Longrightarrow> suffix r t"
proof -
  assume a: "field_rule s = Some (v, r)" and n: "suffix s t"
  from a obtain ty r0 name r1 where
    ty: "type_rule s = Some (ty, r0)" and f: "fieldname_rule (SP_rule r0) = Some (name, r1)"
    by (auto simp: field_rule_def split: option.splits prod.splits)
  from ty n have "suffix r0 t" by (rule type_rule_suffix)
  then have "suffix (SP_rule r0) t" by (rule SP_rule_suffix)
  with f have "suffix r1 t"
    unfolding fieldname_rule_def by (rule re_first_rest_suffix)
  then have r2: "suffix (SP_rule r1) t" by (rule SP_rule_suffix)
  define vr where
    "vr = (case value_rule (SP_rule r1) of None \<Rightarrow> ([], SP_rule r1) | Some (v, r) \<Rightarrow> (v, r))"
  have "suffix (snd vr) t"
    using r2 by (auto simp: vr_def split: option.splits dest: value_rule_suffix)
  then have "suffix (SP_rule (snd vr)) t" by (rule SP_rule_suffix)
  moreover from a ty f obtain c where "optional_comment (SP_rule (snd vr)) = (c, r)"
    by (auto simp: field_rule_def Let_def vr_def [symmetric] split: prod.splits if_splits)
  ultimately show ?thesis
    by (auto dest: optional_comment_suffix)
qed

lemma constant_rule_suffix:
  "constant_rule s = Some (v, r) \<Longrightarrow> suffix s t \<Longrightarrow> suffix r t"
proof -
  assume a: "constant_rule s = Some (v, r)" and n: "suffix s t"
  from a obtain ty r0 name r1 r2 val r3 c where
    ty: "type_rule s = Some (ty, r0)" and f: "constname_rule (SP_rule r0) = Some (name, r1)"
    and e: "lit ''='' (SP_rule r1) = Some r2" and v: "value_rule (SP_rule r2) = Some (val, r3)"
    and c: "optional_comment (SP_rule r3) = (c, r)"
    by (auto simp: constant_rule_def split: option.splits prod.splits)
  from ty n have "suffix r0 t" by (rule type_rule_suffix)
  then have "suffix (SP_rule r0) t" by (rule SP_rule_suffix)
  with f have "suffix r1 t"
    unfolding constname_rule_def by (rule re_first_rest_suffix)
  then have "suffix (SP_rule r1) t" by (rule SP_rule_suffix)
  with e have "suffix r2 t" by (rule lit_suffix)
  then have "suffix (SP_rule r2) t" by (rule SP_rule_suffix)
  with v have "suffix r3 t" by (rule value_rule_suffix)
  then have "suffix (SP_rule r3) t" by (rule SP_rule_suffix)
  with c show ?thesis by (rule optional_comment_suffix)
qed

lemma definition_rule_suffix:
  "definition_rule s = Some (v, r) \<Longrightarrow> suffix s t \<Longrightarrow> suffix r t"
  unfolding definition_rule_def
  by (elim oneof_cases) (auto dest: constant_rule_suffix field_rule_suffix)

lemma line_rule_suffix:
  "line_rule s = Some (v, r) \<Longrightarrow> strict_suffix r s"
proof -
  assume a: "line_rule s = Some (v, r)"
  define pl where "pl = (case oneof (map_option (\<lambda>(c, r). (CommentLine c, r))
                                     (comment_rule (SP_rule s)))
                                   (definition_rule (SP_rule s)) of
              None \<Rightarrow> (None, SP_rule s)
            | Some (x, r) \<Rightarrow> (Some x, r))"
  have s0: "suffix (SP_rule s) s"
    by (rule SP_rule_suffix) simp
  have "suffix (snd pl) s"
  proof (cases "oneof (map_option (\<lambda>(c, r). (CommentLine c, r)) (comment_rule (SP_rule s)))
                      (definition_rule (SP_rule s))")
    case None
    with s0 show ?thesis by (simp add: pl_def)
  next
    case (Some xr)
    obtain x r' where xr: "xr = (x, r')" by (cases xr)
    from Some have "suffix r' s"
      unfolding xr using s0
      by (elim oneof_cases) (auto dest: comment_rule_suffix definition_rule_suffix)
    with Some show ?thesis by (simp add: pl_def xr)
  qed
  then have "suffix (SP_rule (snd pl)) s"
    by (rule SP_rule_suffix)
  moreover from a have "EOL_rule (SP_rule (snd pl)) = Some r"
    by (auto simp: line_rule_def Let_def pl_def [symmetric] split: prod.splits option.splits)
  ultimately show ?thesis
    by (auto dest: EOL_rule_suffix)
qed

lemma item_rule_suffix: "item_rule s = Some (x, r) \<Longrightarrow> strict_suffix r s"
  by (auto simp: item_rule_def emptyline_rule_def split: option.splits prod.splits
      dest: line_rule_suffix EOL_rule_suffix [OF _ SP_rule_suffix [OF suffix_order.refl]])

lemma item_rule_less: "item_rule s = Some (x, r) \<Longrightarrow> length r < length s"
  by (rule suffix_length_less) (rule item_rule_suffix)

lemma item_rule_Nil: "item_rule [] = None"
  by code_simp

text \<open>
  A line without comment or definition matches only where \<open>emptyline\<close> matches, so the
  alternation never reaches it.
\<close>

lemma SP_rule_idem: "SP_rule (SP_rule s) = SP_rule s"
  unfolding SP_rule_def by (induction s) auto

lemma line_rule_payload:
  "emptyline_rule s = None \<Longrightarrow> line_rule s \<noteq> Some (None, r)"
  by (auto simp: line_rule_def emptyline_rule_def Let_def SP_rule_idem
      split: option.splits prod.splits)

subsection \<open>Forward path: the repetition of lines\<close>

lemma msg_rule_Some:
  "item_rule s = Some (x, r) \<Longrightarrow>
   msg_rule s = (x # fst (msg_rule r), snd (msg_rule r))"
  by (subst msg_rule.simps) (simp add: item_rule_less split: prod.splits)

lemma msg_rule_None: "item_rule s = None \<Longrightarrow> msg_rule s = ([], s)"
  by (subst msg_rule.simps) simp

lemma lines_match_msg_rule:
  "lines_match s xs r \<Longrightarrow> item_rule r = None \<Longrightarrow> msg_rule s = (xs, r)"
  by (induction rule: lines_match.induct) (simp_all add: msg_rule_None msg_rule_Some)

lemma msg_rule_lines_match:
  "lines_match s (fst (msg_rule s)) (snd (msg_rule s)) \<and> item_rule (snd (msg_rule s)) = None"
proof (induction s rule: length_induct)
  case (1 s)
  show ?case
  proof (cases "item_rule s")
    case None
    then show ?thesis
      by (simp add: msg_rule_None lines_match_Nil)
  next
    case (Some xr)
    obtain x r where xr: "xr = (x, r)" by (cases xr)
    with Some have i: "item_rule s = Some (x, r)" by simp
    then have "length r < length s" by (rule item_rule_less)
    with 1 have "lines_match r (fst (msg_rule r)) (snd (msg_rule r))
                 \<and> item_rule (snd (msg_rule r)) = None"
      by blast
    with i show ?thesis
      by (auto simp: msg_rule_Some intro: lines_match_Cons)
  qed
qed

subsection \<open>Forward path: the parse contract\<close>

lemma malformed_line_no_item: "item_rule (''123abc BadType'' @ rest) = None"
proof -
  have c: "is_lower (CHR ''1'') = False" "is_upper (CHR ''1'') = False"
    "is_digit09 (CHR ''1'')" "is_digit09 (CHR ''2'')" "is_digit09 (CHR ''3'')"
    "is_lower (CHR ''a'')" "is_lower (CHR ''b'')" "is_lower (CHR ''c'')"
    "is_lower (CHR '' '') = False" "is_digit09 (CHR '' '') = False"
    "is_upper (CHR ''B'')" "is_lower (CHR ''B'') = False"
    "is_upper (CHR ''a'') = False" "is_digit09 (CHR ''a'') = False"
    by (simp_all add: is_lower_def is_upper_def is_digit09_def code_def)
  have t: "type_rule (''123abc BadType'' @ rest) =
             Some (plain_type ''123abc'', '' BadType'' @ rest)"
    by (simp add: type_rule_def basetype_rule_def complextype_rule_def packagename_rule_def
        msgname_rule_def re_first_rest_def stringtype_rule_def lit_def startswith_def
        primitivetype_rule_def re_plus_def oneof_def arrayspec_rule_def plain_type_def c)
  have k: "constant_rule (''123abc BadType'' @ rest) = None"
    by (simp add: constant_rule_def t [simplified] SP_rule_def constname_rule_def re_first_rest_def
        lit_def startswith_def c)
  have f: "field_rule (''123abc BadType'' @ rest) = None"
    by (simp add: field_rule_def t [simplified] SP_rule_def fieldname_rule_def re_first_rest_def c)
  have s: "SP_rule (''123abc BadType'' @ rest) = ''123abc BadType'' @ rest"
    by (simp add: SP_rule_def)
  have e: "EOL_rule (''123abc BadType'' @ rest) = None"
    by (simp add: EOL_rule_def)
  have m: "comment_rule (''123abc BadType'' @ rest) = None"
    by (simp add: comment_rule_def re_plus_def)
  show ?thesis
    by (simp add: item_rule_def emptyline_rule_def line_rule_def definition_rule_def
        oneof_def Let_def s [simplified] e [simplified] m [simplified]
        k [simplified] f [simplified])
qed

lemma lines_match_suffix:
  "lines_match s xs r \<Longrightarrow> suffix r s \<and> length xs + length r \<le> length s"
proof (induction rule: lines_match.induct)
  case (lines_match_Nil s)
  show ?case by simp
next
  case (lines_match_Cons s x r xs r')
  from lines_match_Cons.hyps(1) have "strict_suffix r s"
    by (rule item_rule_suffix)
  then have "suffix r s" "length r < length s"
    by (simp_all add: strict_suffix_def suffix_length_less)
  with lines_match_Cons.IH show ?case
    by (auto intro: suffix_order.trans)
qed

lemma parse_msg_Some_iff: "parse_msg msg = Some doc \<longleftrightarrow> lines_match msg doc []"
proof
  assume "parse_msg msg = Some doc"
  then have "msg_rule msg = (doc, [])"
    by (auto simp: parse_msg_def split: prod.splits list.splits)
  with msg_rule_lines_match [of msg] show "lines_match msg doc []"
    by simp
next
  assume "lines_match msg doc []"
  then have "msg_rule msg = (doc, [])"
    using item_rule_Nil by (rule lines_match_msg_rule)
  then show "parse_msg msg = Some doc"
    by (simp add: parse_msg_def)
qed

lemma parse_msg_None_iff:
  "parse_msg msg = None \<longleftrightarrow> (\<exists>doc r. lines_match msg doc r \<and> r \<noteq> [] \<and> item_rule r = None)"
proof
  assume "parse_msg msg = None"
  then have "snd (msg_rule msg) \<noteq> []"
    by (auto simp: parse_msg_def split: prod.splits list.splits)
  with msg_rule_lines_match [of msg]
  show "\<exists>doc r. lines_match msg doc r \<and> r \<noteq> [] \<and> item_rule r = None"
    by blast
next
  assume "\<exists>doc r. lines_match msg doc r \<and> r \<noteq> [] \<and> item_rule r = None"
  then obtain doc r where "lines_match msg doc r" "r \<noteq> []" "item_rule r = None"
    by blast
  then have "msg_rule msg = (doc, r)" "r \<noteq> []"
    by (simp_all add: lines_match_msg_rule)
  then show "parse_msg msg = None"
    by (simp add: parse_msg_def split: list.splits)
qed

text \<open>
  C3. \<open>parse_msg\<close> returns a document exactly where the repetition of lines
  matches the whole text, and the document is the list of the items matched; it returns
  \<open>None\<close> exactly where the repetition arrives at a text that is not empty and on which
  no line matches. So a document is never a match of part of the text. The text that the
  repetition arrives at is a suffix of the unit, and every item has matched at least one
  character. Where the repetition arrives at the malformed line \<open>123abc BadType\<close> (the
  lines before it match), the parse of the unit is rejected and no file is written.
\<close>

theorem parse_msg_all_or_nothing:
  "(parse_msg msg = Some doc \<longleftrightarrow> lines_match msg doc [])
   \<and> (parse_msg msg = None \<longleftrightarrow>
        (\<exists>items r. lines_match msg items r \<and> r \<noteq> [] \<and> item_rule r = None))
   \<and> (lines_match msg xs left \<longrightarrow> suffix left msg \<and> length xs + length left \<le> length msg)
   \<and> (lines_match msg before (''123abc BadType'' @ rest) \<longrightarrow>
        parse_msg msg = None \<and> convert_msg_file elems msg_name msg package = None)"
proof -
  have "parse_msg msg = None \<and> convert_msg_file elems msg_name msg package = None"
    if "lines_match msg before (''123abc BadType'' @ rest)"
  proof -
    from that malformed_line_no_item [of rest]
    have "\<exists>items r. lines_match msg items r \<and> r \<noteq> [] \<and> item_rule r = None"
      by (intro exI [of _ before] exI [of _ "''123abc BadType'' @ rest"]) simp
    then have "parse_msg msg = None"
      by (simp only: parse_msg_None_iff)
    then show ?thesis
      by (simp add: convert_msg_file_def)
  qed
  then show ?thesis
    using parse_msg_Some_iff [of msg doc] parse_msg_None_iff [of msg]
      lines_match_suffix [of msg xs left]
    by blast
qed

theorem parse_msg_all_or_nothing_witness:
  "lines_match malformed_unit [FieldLine \<lparr>params_type = plain_type ''int32'', params_name = ''x'',
                                          params_value = [], params_comment = []\<rparr>]
     (''123abc BadType'' @ ''\<newline>int32 y\<newline>'')
   \<and> parse_msg malformed_unit = None
   \<and> convert_msg_file no_imports ''Sample'' malformed_unit ''demo'' = None"
proof -
  have i: "item_rule malformed_unit =
             Some (FieldLine \<lparr>params_type = plain_type ''int32'', params_name = ''x'',
                               params_value = [], params_comment = []\<rparr>,
                   ''123abc BadType'' @ ''\<newline>int32 y\<newline>'')"
    by code_simp
  have h: "lines_match malformed_unit
             [FieldLine \<lparr>params_type = plain_type ''int32'', params_name = ''x'',
                          params_value = [], params_comment = []\<rparr>]
             (''123abc BadType'' @ ''\<newline>int32 y\<newline>'')"
    by (rule lines_match_Cons [OF i lines_match_Nil])
  from parse_msg_all_or_nothing [of malformed_unit doc xs left _ "''\<newline>int32 y\<newline>''"
      no_imports "''Sample''" "''demo''" for doc xs left] h
  have "parse_msg malformed_unit = None \<and>
        convert_msg_file no_imports ''Sample'' malformed_unit ''demo'' = None"
    by blast
  with h show ?thesis
    by blast
qed

end
